theory Spec2Isabelle
  imports Main "HOL-Library.Sublist" "HOL-Library.Multiset"
begin

section \<open>Text primitives\<close>

text \<open>
  The server (\<^verbatim>\<open>src/src/index.ts\<close>) works on JavaScript strings. They are modelled as
  \<^typ>\<open>string\<close> over the ASCII alphabet: \<^verbatim>\<open>toLowerCase\<close> acts on the letters A to Z, the
  regular expression class \<^verbatim>\<open>\d\<close> is the ten decimal digits, the line terminators that
  \<^verbatim>\<open>.\<close> and \<^verbatim>\<open>^\<close> look at are line feed and carriage return, and the white space that
  \<^verbatim>\<open>trimEnd\<close> removes is tab, line feed, vertical tab, form feed, carriage return and
  space. Code units beyond ASCII are outside the alphabet of the model.
\<close>

abbreviation NL :: char where
  "NL \<equiv> CHR 0x0A"

abbreviation CR :: char where
  "CR \<equiv> CHR 0x0D"

definition lowerChar :: "char \<Rightarrow> char" where
  "lowerChar c =
     (case map_of (zip ''ABCDEFGHIJKLMNOPQRSTUVWXYZ'' ''abcdefghijklmnopqrstuvwxyz'') c of
        Some l \<Rightarrow> l
      | None \<Rightarrow> c)"

definition toLowerCase :: "string \<Rightarrow> string" where
  "toLowerCase s = map lowerChar s"

text \<open>\<^verbatim>\<open>s.includes(k)\<close>: \<open>k\<close> occurs in \<open>s\<close> as a contiguous run.\<close>

definition str_includes :: "string \<Rightarrow> string \<Rightarrow> bool" where
  "str_includes s k = sublist k s"

definition isDigit :: "char \<Rightarrow> bool" where
  "isDigit c = (c \<in> set ''0123456789'')"

definition lineTerminator :: "char \<Rightarrow> bool" where
  "lineTerminator c = (c = NL \<or> c = CR)"

definition isWhiteSpace :: "char \<Rightarrow> bool" where
  "isWhiteSpace c = (c \<in> set [CHR 0x09, NL, CHR 0x0B, CHR 0x0C, CR, CHR '' ''])"

definition trimEnd :: "string \<Rightarrow> string" where
  "trimEnd s = rev (dropWhile isWhiteSpace (rev s))"

text \<open>The head of the text is a digit (the text is not empty).\<close>

fun digitAt :: "string \<Rightarrow> bool" where
  "digitAt [] = False"
| "digitAt (c # cs) = isDigit c"

text \<open>
  Issue numbers are natural numbers (GraphQL \<^verbatim>\<open>Int\<close> values in the source).
  \<open>showNat\<close> is the decimal numeral a template literal \<^verbatim>\<open>#${n}\<close> writes, \<open>parseInt\<close>
  reads the digits a \<^verbatim>\<open>(\d+)\<close> group captured.
\<close>

definition digitChar :: "nat \<Rightarrow> char" where
  "digitChar d = ''0123456789'' ! d"

fun showNat :: "nat \<Rightarrow> string" where
  "showNat n = (if n < 10 then [digitChar n] else showNat (n div 10) @ [digitChar (n mod 10)])"

declare showNat.simps [simp del]

definition digitVal :: "char \<Rightarrow> nat" where
  "digitVal c = of_char c - 48"

definition parseInt :: "string \<Rightarrow> nat" where
  "parseInt ds = foldl (\<lambda>n c. 10 * n + digitVal c) 0 ds"

section \<open>Type classifier\<close>

text \<open>
  \<^verbatim>\<open>detectIssueType(title, body?)\<close>: the text examined is the template literal
  \<^verbatim>\<open>`${title} ${body || ''}`\<close> in lower case, that is the title, one space, and the
  body (nothing for an absent body). The result is one of six tags or \<^verbatim>\<open>null\<close>.
\<close>

definition combinedText :: "string \<Rightarrow> string option \<Rightarrow> string" where
  "combinedText title body =
     toLowerCase (title @ '' '' @ (case body of None \<Rightarrow> [] | Some b \<Rightarrow> b))"

definition detectIssueType :: "string \<Rightarrow> string option \<Rightarrow> string option" where
  "detectIssueType title body =
     (let text = combinedText title body in
      if str_includes text ''epic'' \<or> str_includes text ''initiative'' \<or>
         str_includes text ''milestone'' \<or> str_includes text ''parent''
      then Some ''epic''
      else if str_includes text ''feature'' \<or> str_includes text ''enhancement'' \<or>
         str_includes text ''new functionality'' \<or> str_includes text ''add support'' \<or>
         str_includes text ''implement''
      then Some ''feature''
      else if str_includes text ''bug'' \<or> str_includes text ''fix'' \<or>
         str_includes text ''error'' \<or> str_includes text ''issue'' \<or>
         str_includes text ''broken'' \<or> str_includes text ''crash''
      then Some ''bug''
      else if str_includes text ''task'' \<or> str_includes text ''chore'' \<or>
         str_includes text ''refactor'' \<or> str_includes text ''update'' \<or>
         str_includes text ''clean''
      then Some ''task''
      else if str_includes text ''story'' \<or> str_includes text ''user story'' \<or>
         str_includes text ''as a user'' \<or> str_includes text ''i want''
      then Some ''story''
      else if str_includes text ''documentation'' \<or> str_includes text ''docs'' \<or>
         str_includes text ''readme'' \<or> str_includes text ''guide''
      then Some ''documentation''
      else None)"

text \<open>
  The classifier as the specification words it: an ordered list of keyword sets, the
  first set with a keyword in the text decides.
\<close>

definition keywordTable :: "(string \<times> string list) list" where
  "keywordTable =
     [(''epic'', [''epic'', ''initiative'', ''milestone'', ''parent'']),
      (''feature'', [''feature'', ''enhancement'', ''new functionality'', ''add support'',
                     ''implement'']),
      (''bug'', [''bug'', ''fix'', ''error'', ''issue'', ''broken'', ''crash'']),
      (''task'', [''task'', ''chore'', ''refactor'', ''update'', ''clean'']),
      (''story'', [''story'', ''user story'', ''as a user'', ''i want'']),
      (''documentation'', [''documentation'', ''docs'', ''readme'', ''guide''])]"

definition firstCategory :: "string \<Rightarrow> string option" where
  "firstCategory text =
     map_option fst (find (\<lambda>entry. list_ex (str_includes text) (snd entry)) keywordTable)"

text \<open>
  The specification's reading of the examined text: title and body concatenated, an
  absent body being empty, in lower case.
\<close>

definition concatenatedText :: "string \<Rightarrow> string option \<Rightarrow> string" where
  "concatenatedText title body =
     toLowerCase (title @ (case body of None \<Rightarrow> [] | Some b \<Rightarrow> b))"

section \<open>The repository behind the GraphQL client\<close>

text \<open>
  Every tool call goes through \<^verbatim>\<open>graphqlWithAuth\<close> to one repository, the one that
  \<^verbatim>\<open>(owner.toLowerCase(), repo)\<close> names. The model's state is what that pair resolves
  to: nothing, or a repository with its issues by number, its labels, the logins and
  milestones it can resolve, and its native sub-issue links. An issue's node id is
  identified with its number. Comments are kept oldest first, as the \<^verbatim>\<open>comments\<close>
  connection lists them. The client is deterministic: a query answers from the state,
  a mutation on a resolved issue succeeds, and \<open>subIssueFailure\<close> is the message the
  \<^verbatim>\<open>addSubIssue\<close> mutation is refused with where the server refuses it.

  The client rejects when the answer to a request carries an \<^verbatim>\<open>errors\<close> entry.
  \<open>issueNotFound\<close> says how the endpoint answers a query for an issue number that does
  not resolve: with a null issue alone, and the client resolves (\<open>None\<close>), or with a
  null issue and an \<^verbatim>\<open>errors\<close> entry whose message it gives, and the client rejects
  with that message (GitHub's \<^verbatim>\<open>NOT_FOUND\<close>).
\<close>

record issue =
  issueTitle :: string
  issueBody :: string
  issueState :: string
  issueLabels :: "string list"
  issueAssignees :: "string list"
  issueMilestone :: "nat option"
  issueComments :: "string list"

record repository =
  issues :: "nat \<Rightarrow> issue option"
  repoLabels :: "string list"
  logins :: "string list"
  milestones :: "nat list"
  nextNumber :: nat
  subIssueFailure :: "string option"
  subIssues :: "(nat \<times> nat) list"
  issueNotFound :: "(nat \<Rightarrow> string) option"

type_synonym github = "repository option"

datatype ErrorCode = InvalidRequest | MethodNotFound | InternalError

datatype error = McpError ErrorCode string | GraphqlError string

text \<open>
  \<^verbatim>\<open>error.message\<close>. An error of the GraphQL client carries its message. The class
  \<^verbatim>\<open>McpError\<close> belongs to the SDK, not to this repository: the message it builds from
  the code and the text it is constructed with is a parameter of the model.
\<close>

type_synonym messageFormat = "ErrorCode \<Rightarrow> string \<Rightarrow> string"

fun errorMessage :: "messageFormat \<Rightarrow> error \<Rightarrow> string" where
  "errorMessage sdk (McpError code text) = sdk code text"
| "errorMessage sdk (GraphqlError text) = text"

text \<open>The issue a number resolves to in the state, if it resolves.\<close>

definition fetchIssue :: "github \<Rightarrow> nat \<Rightarrow> issue option" where
  "fetchIssue g n = (case g of None \<Rightarrow> None | Some r \<Rightarrow> issues r n)"

text \<open>
  The awaited query \<^verbatim>\<open>repository(owner, name) { issue(number) { ... } }\<close>: it resolves
  with the issue, or with no issue, or it is rejected with the error of the client.
\<close>

definition queryIssue :: "github \<Rightarrow> nat \<Rightarrow> error + issue option" where
  "queryIssue g n =
     (case g of
        None \<Rightarrow> Inr None
      | Some r \<Rightarrow>
          (case issues r n of
             Some i \<Rightarrow> Inr (Some i)
           | None \<Rightarrow>
               (case issueNotFound r of
                  None \<Rightarrow> Inr None
                | Some message \<Rightarrow> Inl (GraphqlError (message n)))))"

text \<open>
  The one query of \<^verbatim>\<open>addSubIssue\<close> for both issues, under the aliases
  \<^verbatim>\<open>parentIssue\<close> and \<^verbatim>\<open>childIssue\<close>: it is rejected when either number is answered
  with an \<^verbatim>\<open>errors\<close> entry (the message kept is that of the first).
\<close>

definition queryIssuePair ::
  "github \<Rightarrow> nat \<Rightarrow> nat \<Rightarrow> error + (issue option \<times> issue option)" where
  "queryIssuePair g p c =
     (case queryIssue g p of
        Inl e \<Rightarrow> Inl e
      | Inr parent \<Rightarrow>
          (case queryIssue g c of
             Inl e \<Rightarrow> Inl e
           | Inr child \<Rightarrow> Inr (parent, child)))"

text \<open>
  The \<^verbatim>\<open>catch\<close> of the request handler, around every tool: an \<^verbatim>\<open>McpError\<close> is
  thrown on as it is, any other error becomes an internal error whose text is
  \<^verbatim>\<open>GitHub API error: \<close> and the message, with a hint after a message that contains
  \<^verbatim>\<open>Bad credentials\<close>.
\<close>

definition toolError :: "error \<Rightarrow> error" where
  "toolError e =
     (case e of
        McpError code text \<Rightarrow> McpError code text
      | GraphqlError text \<Rightarrow>
          McpError InternalError
            (''GitHub API error: '' @ text @
             (if str_includes text ''Bad credentials''
              then ''. Please check that your GitHub token is valid and has the '' @
                   ''required permissions (repo, project, read:org).''
              else [])))"

definition callTool :: "(error + 'a) \<times> github \<Rightarrow> (error + 'a) \<times> github" where
  "callTool outcome =
     (case outcome of
        (Inl e, g) \<Rightarrow> (Inl (toolError e), g)
      | (Inr answer, g) \<Rightarrow> (Inr answer, g))"

definition modifyIssue :: "nat \<Rightarrow> (issue \<Rightarrow> issue) \<Rightarrow> github \<Rightarrow> github" where
  "modifyIssue n f g =
     (case g of
        None \<Rightarrow> None
      | Some r \<Rightarrow> Some (r\<lparr>issues := (issues r)(n := map_option f (issues r n))\<rparr>))"

text \<open>The mutations \<^verbatim>\<open>addComment(input: {subjectId, body})\<close> and
  \<^verbatim>\<open>updateIssue(input: {id, body})\<close>.\<close>

definition addComment :: "nat \<Rightarrow> string \<Rightarrow> github \<Rightarrow> github" where
  "addComment n text g = modifyIssue n (\<lambda>i. i\<lparr>issueComments := issueComments i @ [text]\<rparr>) g"

definition updateIssueBody :: "nat \<Rightarrow> string \<Rightarrow> github \<Rightarrow> github" where
  "updateIssueBody n text g = modifyIssue n (\<lambda>i. i\<lparr>issueBody := text\<rparr>) g"

section \<open>Hierarchy manager, write path\<close>

subsection \<open>The parent marker in the child's body\<close>

text \<open>
  \<^verbatim>\<open>childIssueBody.replace(/\n\n---\n\*\*Parent:\*\*.+/, parentRef)\<close>: the pattern has no
  \<^verbatim>\<open>g\<close> flag, so the leftmost match is replaced, and a body without a match is
  returned as it is. A match is the literal of seventeen characters followed by one or
  more characters up to the next line terminator. \<open>findParentBlock\<close> gives the text
  before the match, the match and the text after it.
\<close>

definition parentBlockLiteral :: string where
  "parentBlockLiteral = [NL, NL] @ ''---'' @ [NL] @ ''**Parent:**''"

fun findParentBlock :: "string \<Rightarrow> (string \<times> string \<times> string) option" where
  "findParentBlock [] = None"
| "findParentBlock (c # cs) =
     (if prefix parentBlockLiteral (c # cs) \<and>
         (case drop 17 (c # cs) of [] \<Rightarrow> False | d # ds \<Rightarrow> \<not> lineTerminator d)
      then Some ([],
                 parentBlockLiteral @ takeWhile (\<lambda>d. \<not> lineTerminator d) (drop 17 (c # cs)),
                 dropWhile (\<lambda>d. \<not> lineTerminator d) (drop 17 (c # cs)))
      else (case findParentBlock cs of
              None \<Rightarrow> None
            | Some (pre, matched, post) \<Rightarrow> Some (c # pre, matched, post)))"

text \<open>
  The replacement is a string, so \<^verbatim>\<open>replace\<close> expands the dollar patterns in it:
  \<^verbatim>\<open>$$\<close> is a dollar sign, \<^verbatim>\<open>$&\<close> the match, \<^verbatim>\<open>$`\<close> the text before the match and
  \<^verbatim>\<open>$'\<close> the text after it. The pattern has no capture group, so every other use of
  the dollar sign stands for itself.
\<close>

fun getSubstitution :: "string \<Rightarrow> string \<Rightarrow> string \<Rightarrow> string \<Rightarrow> string" where
  "getSubstitution matched pre post [] = []"
| "getSubstitution matched pre post [c] = [c]"
| "getSubstitution matched pre post (c # d # r) =
     (if c = CHR ''$'' \<and> d = CHR ''$'' then CHR ''$'' # getSubstitution matched pre post r
      else if c = CHR ''$'' \<and> d = CHR ''&'' then matched @ getSubstitution matched pre post r
      else if c = CHR ''$'' \<and> d = CHR 0x60 then pre @ getSubstitution matched pre post r
      else if c = CHR ''$'' \<and> d = CHR 0x27 then post @ getSubstitution matched pre post r
      else c # getSubstitution matched pre post (d # r))"

definition replaceParentBlock :: "string \<Rightarrow> string \<Rightarrow> string" where
  "replaceParentBlock text replacement =
     (case findParentBlock text of
        None \<Rightarrow> text
      | Some (pre, matched, post) \<Rightarrow>
          pre @ getSubstitution matched pre post replacement @ post)"

subsection \<open>The task list in the parent's body\<close>

text \<open>
  \<^verbatim>\<open>taskListRegex = /(^|\n)(- \[[ x]\] #\d+.*\n)+/gm\<close>. One task line is the literal
  \<^verbatim>\<open>- [\<close>, a space or an \<^verbatim>\<open>x\<close>, the literal \<^verbatim>\<open>] #\<close>, one digit or more, the rest of the
  line, and a line feed. \<open>taskLine\<close> matches one line at the head of the text and gives
  the text after it; \<open>taskLines\<close> is the greedy repetition; \<open>blockAt\<close> is the whole
  pattern at the head of the text, where \<open>bol\<close> says whether \<^verbatim>\<open>^\<close> holds there (the
  start of the text, or the position after a line terminator).
\<close>

fun checkboxAt :: "string \<Rightarrow> bool" where
  "checkboxAt [] = False"
| "checkboxAt (c # cs) = (c = CHR '' '' \<or> c = CHR ''x'')"

definition taskLine :: "string \<Rightarrow> string option" where
  "taskLine s =
     (if prefix ''- ['' s \<and> checkboxAt (drop 3 s) \<and> prefix ''] #'' (drop 4 s) \<and>
         digitAt (drop 7 s)
      then (case dropWhile (\<lambda>c. \<not> lineTerminator c) (drop 7 s) of
              [] \<Rightarrow> None
            | c # r \<Rightarrow> if c = NL then Some r else None)
      else None)"

function taskLines :: "string \<Rightarrow> string option" where
  "taskLines s =
     (case taskLine s of
        None \<Rightarrow> None
      | Some r \<Rightarrow> (case taskLines r of None \<Rightarrow> Some r | Some r' \<Rightarrow> Some r'))"
  by pat_completeness auto
termination
proof (relation "measure length")
  show "wf (measure length)" by simp
next
  fix s r :: string
  assume "taskLine s = Some r"
  then obtain c where "dropWhile (\<lambda>c. \<not> lineTerminator c) (drop 7 s) = c # r"
    by (auto simp: taskLine_def split: if_splits list.splits)
  then have "length (c # r) \<le> length (drop 7 s)"
    by (metis length_dropWhile_le)
  then show "(r, s) \<in> measure length" by simp
qed

declare taskLines.simps [simp del]

definition blockAt :: "bool \<Rightarrow> string \<Rightarrow> string option" where
  "blockAt bol s =
     (case (if bol then taskLines s else None) of
        Some r \<Rightarrow> Some r
      | None \<Rightarrow> (case s of [] \<Rightarrow> None | c # cs \<Rightarrow> if c = NL then taskLines cs else None))"

text \<open>\<^verbatim>\<open>taskListRegex.test(body)\<close>: the pattern matches somewhere.\<close>

fun searchBlock :: "bool \<Rightarrow> string \<Rightarrow> bool" where
  "searchBlock bol [] = False"
| "searchBlock bol (c # cs) =
     (if blockAt bol (c # cs) \<noteq> None then True else searchBlock (lineTerminator c) cs)"

definition hasTaskList :: "string \<Rightarrow> bool" where
  "hasTaskList text = searchBlock True text"

text \<open>
  The matches of the pattern with its \<^verbatim>\<open>g\<close> flag, from left to right, the search
  going on where the last match ended: \<open>scanBlocks\<close> cuts the text into the matches
  (\<open>Inl\<close>) and the characters between them (\<open>Inr\<close>).
\<close>

function scanBlocks :: "bool \<Rightarrow> string \<Rightarrow> (string + char) list" where
  "scanBlocks bol [] = []"
| "scanBlocks bol (c # cs) =
     (case blockAt bol (c # cs) of
        None \<Rightarrow> Inr c # scanBlocks (lineTerminator c) cs
      | Some r \<Rightarrow> Inl (take (length (c # cs) - length r) (c # cs)) # scanBlocks True r)"
  by pat_completeness auto
termination
proof (relation "measure (\<lambda>(bol, s). length s)")
  show "wf (measure (\<lambda>(bol, s). length s))" by simp
next
  fix bol c cs
  show "((lineTerminator c, cs), (bol, c # cs)) \<in> measure (\<lambda>(bol, s). length s)"
    by simp
next
  fix bol c cs r
  assume m: "blockAt bol (c # cs) = Some r"
  have line: "length b < length a" if "taskLine a = Some b" for a b
  proof -
    from that obtain d where "dropWhile (\<lambda>c. \<not> lineTerminator c) (drop 7 a) = d # b"
      by (auto simp: taskLine_def split: if_splits list.splits)
    then have "length (d # b) \<le> length (drop 7 a)"
      by (metis length_dropWhile_le)
    then show ?thesis by simp
  qed
  have lines: "taskLines a = Some b \<Longrightarrow> length b < length a" for a b
  proof (induction a arbitrary: b rule: taskLines.induct)
    case (1 s)
    from "1.prems" obtain r1 where r1: "taskLine s = Some r1"
      by (subst (asm) taskLines.simps) (auto split: option.splits)
    show ?case
    proof (cases "taskLines r1")
      case None
      with r1 "1.prems" have "b = r1"
        by (subst (asm) taskLines.simps) simp
      with line [OF r1] show ?thesis by simp
    next
      case (Some r2)
      with r1 "1.prems" have "b = r2"
        by (subst (asm) taskLines.simps) simp
      with "1.IH" [OF r1 Some] line [OF r1] show ?thesis by simp
    qed
  qed
  from m have "length r < length (c # cs)"
    by (auto simp: blockAt_def split: option.splits if_splits dest: lines)
  then show "((True, r), (bol, c # cs)) \<in> measure (\<lambda>(bol, s). length s)"
    by simp
qed

text \<open>\<^verbatim>\<open>body.match(taskListRegex)\<close>: the task-list blocks of a body.\<close>

definition taskListBlocks :: "string \<Rightarrow> string list" where
  "taskListBlocks text = concat (map (case_sum (\<lambda>m. [m]) (\<lambda>c. [])) (scanBlocks True text))"

text \<open>
  \<^verbatim>\<open>body.replace(taskListRegex, f)\<close>: every match is replaced by what the function
  \<open>f\<close> makes of it; the result of a function is used as it is.
\<close>

definition replaceBlocks :: "(string \<Rightarrow> string) \<Rightarrow> string \<Rightarrow> string" where
  "replaceBlocks f text = concat (map (case_sum f (\<lambda>c. [c])) (scanBlocks True text))"

text \<open>
  The second half of the \<^verbatim>\<open>tracks\<close> branch of \<^verbatim>\<open>linkIssues\<close>: the parent's body with
  the child's task item.
\<close>

definition childTaskItem :: "nat \<Rightarrow> string \<Rightarrow> string" where
  "childTaskItem childNumber childTitle = ''- [ ] #'' @ showNat childNumber @ '' '' @ childTitle"

definition augmentTaskList :: "nat \<Rightarrow> string \<Rightarrow> string \<Rightarrow> string" where
  "augmentTaskList childNumber childTitle parentBody =
     (if hasTaskList parentBody
      then (if \<not> str_includes parentBody (''#'' @ showNat childNumber)
            then replaceBlocks
                   (\<lambda>m. trimEnd m @ [NL] @ childTaskItem childNumber childTitle @ [NL])
                   parentBody
            else parentBody)
      else ''### Tasks'' @ [NL] @ childTaskItem childNumber childTitle @ [NL, NL] @ parentBody)"

subsection \<open>linkIssues\<close>

text \<open>
  The arguments of \<^verbatim>\<open>link_issues\<close>; an absent \<^verbatim>\<open>linkType\<close> is \<^verbatim>\<open>'tracks'\<close>. The answer
  carries what the JSON text of the tool result carries.
\<close>

record linkArgs =
  parentIssueNumber :: nat
  childIssueNumber :: nat
  linkType :: "string option"

datatype response =
  Linked "nat \<times> string" "nat \<times> string" string
| NativeSubIssue "nat \<times> string" "nat \<times> string"

definition parentCommentFor :: "string \<Rightarrow> nat \<Rightarrow> string" where
  "parentCommentFor kind child =
     (if kind = ''tracks'' then ''Tracks #'' @ showNat child
      else if kind = ''blocks'' then ''Blocks #'' @ showNat child
      else ''Related to #'' @ showNat child)"

definition childCommentFor :: "string \<Rightarrow> nat \<Rightarrow> string" where
  "childCommentFor kind parent =
     (if kind = ''tracks'' then ''Tracked by #'' @ showNat parent
      else if kind = ''blocks'' then ''Blocked by #'' @ showNat parent
      else ''Related to #'' @ showNat parent)"

definition parentRefFor :: "nat \<Rightarrow> string \<Rightarrow> string" where
  "parentRefFor parent parentTitle =
     [NL, NL] @ ''---'' @ [NL] @ ''**Parent:** #'' @ showNat parent @ '' - '' @ parentTitle"

definition markChildBody :: "nat \<Rightarrow> string \<Rightarrow> string \<Rightarrow> string" where
  "markChildBody parent parentTitle childBody =
     (if str_includes childBody ''**Parent:**''
      then replaceParentBlock childBody (parentRefFor parent parentTitle)
      else childBody @ parentRefFor parent parentTitle)"

definition linkIssues :: "linkArgs \<Rightarrow> github \<Rightarrow> (error + response) \<times> github" where
  "linkIssues args g =
     (let p = parentIssueNumber args;
          c = childIssueNumber args;
          kind = (case linkType args of None \<Rightarrow> ''tracks'' | Some k \<Rightarrow> k)
      in case queryIssue g p of
           Inl rejected \<Rightarrow> (Inl rejected, g)
         | Inr None \<Rightarrow> (Inl (McpError InvalidRequest ''Parent issue not found''), g)
         | Inr (Some parent) \<Rightarrow>
             (case queryIssue g c of
                Inl rejected \<Rightarrow> (Inl rejected, g)
              | Inr None \<Rightarrow> (Inl (McpError InvalidRequest ''Child issue not found''), g)
              | Inr (Some child) \<Rightarrow>
                  let g1 = addComment p (parentCommentFor kind c) g;
                      g2 = addComment c (childCommentFor kind p) g1;
                      g4 = (if kind = ''tracks''
                            then let g3 = updateIssueBody c
                                            (markChildBody p (issueTitle parent) (issueBody child)) g2
                                 in updateIssueBody p
                                      (augmentTaskList c (issueTitle child) (issueBody parent)) g3
                            else g2)
                  in (Inr (Linked (p, issueTitle parent) (c, issueTitle child) kind), g4)))"

text \<open>\<^verbatim>\<open>set_parent\<close>: \<^verbatim>\<open>linkIssues\<close> with the issue as the child.\<close>

definition setParent :: "nat \<Rightarrow> nat \<Rightarrow> github \<Rightarrow> (error + response) \<times> github" where
  "setParent issueNumber parent g =
     linkIssues \<lparr>parentIssueNumber = parent, childIssueNumber = issueNumber,
                 linkType = Some ''tracks''\<rparr> g"

subsection \<open>addSubIssue\<close>

text \<open>The mutation \<^verbatim>\<open>addSubIssue(input: {issueId, subIssueId})\<close>.\<close>

definition addSubIssueMutation :: "nat \<Rightarrow> nat \<Rightarrow> github \<Rightarrow> (error + unit) \<times> github" where
  "addSubIssueMutation p c g =
     (case g of
        None \<Rightarrow> (Inl (GraphqlError ''Could not resolve to a node''), g)
      | Some r \<Rightarrow>
          (case subIssueFailure r of
             Some text \<Rightarrow> (Inl (GraphqlError text), g)
           | None \<Rightarrow> (Inr (), Some (r\<lparr>subIssues := subIssues r @ [(p, c)]\<rparr>))))"

definition addSubIssue ::
  "messageFormat \<Rightarrow> nat \<Rightarrow> nat \<Rightarrow> github \<Rightarrow> (error + response) \<times> github" where
  "addSubIssue sdk p c g =
     (case queryIssuePair g p c of
        Inl rejected \<Rightarrow> (Inl rejected, g)
      | Inr (None, child) \<Rightarrow> (Inl (McpError InvalidRequest ''Parent issue not found''), g)
      | Inr (Some parent, None) \<Rightarrow>
          (Inl (McpError InvalidRequest ''Child issue not found''), g)
      | Inr (Some parent, Some child) \<Rightarrow>
               (case addSubIssueMutation p c g of
                  (Inr u, g1) \<Rightarrow> (Inr (NativeSubIssue (p, issueTitle parent) (c, issueTitle child)), g1)
                | (Inl e, g1) \<Rightarrow>
                    if str_includes (errorMessage sdk e) ''Field 'addSubIssue' doesn't exist'' \<or>
                       str_includes (errorMessage sdk e) ''Unknown field''
                    then linkIssues \<lparr>parentIssueNumber = p, childIssueNumber = c,
                                     linkType = Some ''tracks''\<rparr> g1
                    else (Inl e, g1)))"

section \<open>Hierarchy manager, read path\<close>

text \<open>
  \<^verbatim>\<open>issue.body?.match(/\*\*Parent:\*\* #(\d+)/)\<close> and \<^verbatim>\<open>parseInt\<close> of the group: the
  leftmost place where the literal is followed by a digit, and the digits there.
\<close>

fun parentMatch :: "string \<Rightarrow> nat option" where
  "parentMatch [] = None"
| "parentMatch (c # cs) =
     (if prefix ''**Parent:** #'' (c # cs) \<and> digitAt (drop 13 (c # cs))
      then Some (parseInt (takeWhile isDigit (drop 13 (c # cs))))
      else parentMatch cs)"

text \<open>
  The loop \<^verbatim>\<open>while ((match = childPattern.exec(comment.body)) !== null)\<close> with
  \<^verbatim>\<open>childPattern = /Tracks #(\d+)/g\<close>: every match in one comment, from left to right,
  the search going on where the last match ended.
\<close>

function trackedNumbers :: "string \<Rightarrow> nat list" where
  "trackedNumbers [] = []"
| "trackedNumbers (c # cs) =
     (if prefix ''Tracks #'' (c # cs) \<and> digitAt (drop 8 (c # cs))
      then parseInt (takeWhile isDigit (drop 8 (c # cs))) #
           trackedNumbers (dropWhile isDigit (drop 8 (c # cs)))
      else trackedNumbers cs)"
  by pat_completeness auto
termination
proof (relation "measure length")
  show "wf (measure length)" by simp
next
  fix c :: char and cs :: string
  have "length (dropWhile isDigit (drop 8 (c # cs))) \<le> length (drop 8 (c # cs))"
    by (rule length_dropWhile_le)
  then show "(dropWhile isDigit (drop 8 (c # cs)), c # cs) \<in> measure length"
    by simp
next
  fix c :: char and cs :: string
  show "(cs, c # cs) \<in> measure length" by simp
qed

text \<open>\<^verbatim>\<open>childNumbers.add(n)\<close> on a \<^verbatim>\<open>Set\<close>, which iterates in insertion order.\<close>

definition setAdd :: "nat list \<Rightarrow> nat \<Rightarrow> nat list" where
  "setAdd seen n = (if n \<in> set seen then seen else seen @ [n])"

definition childNumbersOf :: "string list \<Rightarrow> nat list" where
  "childNumbersOf cms = foldl (\<lambda>seen comment. foldl setAdd seen (trackedNumbers comment)) [] cms"

record entry =
  entryNumber :: nat
  entryTitle :: string
  entryState :: string
  entryLabels :: "string list"
  entryType :: "string option"

record hierarchy =
  current :: entry
  parents :: "entry list"
  children :: "entry list"

text \<open>
  \<^verbatim>\<open>typeOrder[a.type] ?? 6\<close>. The \<open>type\<close> of an entry is always a result of
  \<open>detectIssueType\<close>, one of the six keys or \<^verbatim>\<open>null\<close>.
\<close>

definition typeOrder :: "(string \<times> nat) list" where
  "typeOrder = [(''epic'', 0), (''feature'', 1), (''story'', 2), (''task'', 3), (''bug'', 4),
                (''documentation'', 5)]"

definition orderOf :: "string option \<Rightarrow> nat" where
  "orderOf t =
     (case t of
        None \<Rightarrow> 6
      | Some name \<Rightarrow> (case map_of typeOrder name of None \<Rightarrow> 6 | Some k \<Rightarrow> k))"

text \<open>
  \<^verbatim>\<open>hierarchy.children.sort((a, b) => aOrder - bOrder)\<close>. \<^verbatim>\<open>Array.prototype.sort\<close> is a
  stable sort (ECMAScript 2019); \<open>sort_key\<close> is insertion sort by the key.
\<close>

definition sortChildren :: "entry list \<Rightarrow> entry list" where
  "sortChildren es = sort_key (\<lambda>e. orderOf (entryType e)) es"

text \<open>
  The fetch of a parent or child inside \<^verbatim>\<open>try\<close>: a rejected query is caught and a
  number that does not resolve is passed over, the related issue being left out
  either way.
\<close>

definition relatedEntry :: "github \<Rightarrow> nat \<Rightarrow> entry list" where
  "relatedEntry g n =
     (case queryIssue g n of
        Inl rejected \<Rightarrow> []
      | Inr None \<Rightarrow> []
      | Inr (Some i) \<Rightarrow> [\<lparr>entryNumber = n, entryTitle = issueTitle i, entryState = issueState i,
                     entryLabels = take 5 (issueLabels i),
                     entryType = detectIssueType (issueTitle i) (Some [])\<rparr>])"

text \<open>
  The children in the order of their discovery: the numbers matched in the first
  hundred comments, each fetched, the ones that do not resolve left out.
\<close>

definition discoveredChildren :: "github \<Rightarrow> issue \<Rightarrow> entry list" where
  "discoveredChildren g i =
     concat (map (relatedEntry g) (childNumbersOf (take 100 (issueComments i))))"

definition getIssueHierarchy :: "nat \<Rightarrow> github \<Rightarrow> error + hierarchy" where
  "getIssueHierarchy issueNumber g =
     (case queryIssue g issueNumber of
        Inl rejected \<Rightarrow> Inl rejected
      | Inr None \<Rightarrow> Inl (McpError InvalidRequest ''Issue not found'')
      | Inr (Some i) \<Rightarrow>
          Inr \<lparr>current = \<lparr>entryNumber = issueNumber, entryTitle = issueTitle i,
                           entryState = issueState i, entryLabels = take 10 (issueLabels i),
                           entryType = detectIssueType (issueTitle i) (Some (issueBody i))\<rparr>,
               parents = (case parentMatch (issueBody i) of
                            None \<Rightarrow> []
                          | Some parentNumber \<Rightarrow> relatedEntry g parentNumber),
               children = sortChildren (discoveredChildren g i)\<rparr>)"

section \<open>Issue creation\<close>

text \<open>
  \<^verbatim>\<open>createIssue\<close>: the detected type joins the labels, label names, logins and the
  milestone are resolved against the repository (what does not resolve is dropped), the
  issue is created, and with a \<^verbatim>\<open>parentIssueNumber\<close> (a number other than zero) it is
  linked to the parent inside a \<^verbatim>\<open>try\<close>.
\<close>

record createArgs =
  newTitle :: string
  newBody :: "string option"
  newLabels :: "string list"
  newAssignees :: "string list"
  newMilestone :: "nat option"
  newParent :: "nat option"

record created =
  createdNumber :: nat
  createdFields :: issue
  parentIssue :: "(nat \<times> string) option"
  linkError :: "string option"

definition truthyNumber :: "nat option \<Rightarrow> nat option" where
  "truthyNumber n = (case n of None \<Rightarrow> None | Some k \<Rightarrow> if k = 0 then None else Some k)"

definition truthyText :: "string option \<Rightarrow> string" where
  "truthyText b = (case b of None \<Rightarrow> [] | Some t \<Rightarrow> t)"

definition autoLabelsFor :: "createArgs \<Rightarrow> string list" where
  "autoLabelsFor args =
     (case detectIssueType (newTitle args) (newBody args) of
        None \<Rightarrow> newLabels args
      | Some issueType \<Rightarrow>
          if issueType \<in> set (newLabels args) then newLabels args
          else newLabels args @ [issueType])"

text \<open>
  The mutation \<^verbatim>\<open>createIssue(input: {...})\<close> with the resolved label, assignee and
  milestone ids: the new issue takes the repository's next number, and the answer lists
  the first ten labels and assignees.
\<close>

definition createIssueMutation :: "createArgs \<Rightarrow> repository \<Rightarrow> created \<times> github" where
  "createIssueMutation args r =
     (let number = nextNumber r;
          i = \<lparr>issueTitle = newTitle args,
               issueBody = truthyText (newBody args),
               issueState = ''OPEN'',
               issueLabels = filter (\<lambda>l. l \<in> set (take 100 (repoLabels r))) (autoLabelsFor args),
               issueAssignees = filter (\<lambda>u. u \<in> set (logins r)) (newAssignees args),
               issueMilestone =
                 (case truthyNumber (newMilestone args) of
                    None \<Rightarrow> None
                  | Some m \<Rightarrow> if m \<in> set (milestones r) then Some m else None),
               issueComments = []\<rparr>
      in (\<lparr>createdNumber = number,
           createdFields = i\<lparr>issueLabels := take 10 (issueLabels i),
                            issueAssignees := take 10 (issueAssignees i)\<rparr>,
           parentIssue = None, linkError = None\<rparr>,
          Some (r\<lparr>issues := (issues r)(number := Some i), nextNumber := Suc number\<rparr>)))"

definition createIssue ::
  "messageFormat \<Rightarrow> createArgs \<Rightarrow> github \<Rightarrow> (error + created) \<times> github" where
  "createIssue sdk args g =
     (case g of
        None \<Rightarrow> (Inl (McpError InvalidRequest ''Repository not found''), g)
      | Some r \<Rightarrow>
          (case createIssueMutation args r of
             (createdIssue, g1) \<Rightarrow>
               (case truthyNumber (newParent args) of
                  None \<Rightarrow> (Inr createdIssue, g1)
                | Some parent \<Rightarrow>
                    (case linkIssues \<lparr>parentIssueNumber = parent,
                                      childIssueNumber = createdNumber createdIssue,
                                      linkType = Some ''tracks''\<rparr> g1 of
                       (Inr linked, g2) \<Rightarrow>
                         (Inr (createdIssue\<lparr>parentIssue := Some (parent, ''tracks'')\<rparr>), g2)
                     | (Inl linkFailure, g2) \<Rightarrow>
                         (Inr (createdIssue\<lparr>linkError := Some (errorMessage sdk linkFailure)\<rparr>),
                          g2)))))"

section \<open>Checklist lines of a body\<close>

text \<open>
  What the claims about the task list count: the lines of a body, cut at the line
  feeds, that are a checklist line for issue \<open>n\<close>, that is \<^verbatim>\<open>- [ ] #n\<close> or
  \<^verbatim>\<open>- [x] #n\<close> with no further digit after the number.
\<close>

fun splitLines :: "string \<Rightarrow> string list" where
  "splitLines [] = [[]]"
| "splitLines (c # cs) =
     (if c = NL then [] # splitLines cs
      else (case splitLines cs of [] \<Rightarrow> [[c]] | l # ls \<Rightarrow> (c # l) # ls))"

definition checklistLineFor :: "nat \<Rightarrow> string \<Rightarrow> bool" where
  "checklistLineFor n l =
     ((prefix (''- [ ] #'' @ showNat n) l \<or> prefix (''- [x] #'' @ showNat n) l) \<and>
      \<not> digitAt (drop (7 + length (showNat n)) l))"

definition checklistLinesFor :: "nat \<Rightarrow> string \<Rightarrow> string list" where
  "checklistLinesFor n text = filter (checklistLineFor n) (splitLines text)"

section \<open>Example repositories\<close>

text \<open>Concrete repositories on which the theorems below are instantiated.\<close>

definition plainIssue :: "string \<Rightarrow> string \<Rightarrow> string list \<Rightarrow> issue" where
  "plainIssue t b cms =
     \<lparr>issueTitle = t, issueBody = b, issueState = ''OPEN'', issueLabels = [],
      issueAssignees = [], issueMilestone = None, issueComments = cms\<rparr>"

definition repositoryOf :: "(nat \<Rightarrow> issue option) \<Rightarrow> nat \<Rightarrow> repository" where
  "repositoryOf store next =
     \<lparr>issues = store, repoLabels = [], logins = [], milestones = [], nextNumber = next,
      subIssueFailure = None, subIssues = [], issueNotFound = None\<rparr>"

text \<open>A parent and a child with empty bodies.\<close>

definition freshRepo :: repository where
  "freshRepo =
     repositoryOf ((\<lambda>n. None)
        (100 := Some (plainIssue ''Checkout'' [] []),
         101 := Some (plainIssue ''Cart page'' [] []))) 102"

text \<open>The child's body was written from a template that has a line for the parent.\<close>

definition templateRepo :: repository where
  "templateRepo =
     repositoryOf ((\<lambda>n. None)
        (100 := Some (plainIssue ''Checkout'' [] []),
         101 := Some (plainIssue ''Cart page'' ''**Parent:** TBD'' []))) 102"

text \<open>The parent already has a hundred comments, none of them about a child.\<close>

definition busyRepo :: repository where
  "busyRepo =
     repositoryOf ((\<lambda>n. None)
        (100 := Some (plainIssue ''Checkout'' [] (replicate 100 ''ok'')),
         101 := Some (plainIssue ''Cart page'' [] []))) 102"

text \<open>Issue 1 tracks a bug, an epic, a task and an epic, commented in that order.\<close>

definition sprintRepo :: repository where
  "sprintRepo =
     repositoryOf ((\<lambda>n. None)
        (1 := Some (plainIssue ''Checkout'' []
                      [''Tracks #2'', ''Tracks #3'', ''Tracks #4'', ''Tracks #5'']),
         2 := Some (plainIssue ''Login bug'' [] []),
         3 := Some (plainIssue ''Epic: payments'' [] []),
         4 := Some (plainIssue ''Cleanup task'' [] []),
         5 := Some (plainIssue ''Epic: search'' [] []))) 6"

text \<open>
  The endpoint answers a query for an issue that does not resolve with an
  \<^verbatim>\<open>errors\<close> entry.
\<close>

definition reportingRepo :: repository where
  "reportingRepo =
     freshRepo\<lparr>issueNotFound :=
                  Some (\<lambda>n. ''Could not resolve to an Issue with the number of '' @
                            showNat n @ ''.'')\<rparr>"

text \<open>The child was linked to issue 5 before: its body ends in the marker block.\<close>

definition reparentRepo :: repository where
  "reparentRepo =
     repositoryOf ((\<lambda>n. None)
        (100 := Some (plainIssue ''Checkout'' [] []),
         101 := Some (plainIssue ''Cart page''
                        (''Details.'' @ [NL, NL] @ ''---'' @ [NL] @ ''**Parent:** #5 - Old'')
                        []))) 102"

text \<open>The server refuses the native sub-issue mutation.\<close>

definition legacyRepo :: repository where
  "legacyRepo =
     freshRepo\<lparr>subIssueFailure :=
                  Some ''Field 'addSubIssue' doesn't exist on type 'Mutation'.''\<rparr>"

text \<open>The parent's body has two task-list blocks, neither of them with issue 101.\<close>

definition checklistRepo :: repository where
  "checklistRepo =
     repositoryOf ((\<lambda>n. None)
        (100 := Some (plainIssue ''Checkout''
                        (''## Backend'' @ [NL] @ ''- [ ] #5 API'' @ [NL, NL] @
                         ''## Frontend'' @ [NL] @ ''- [x] #6 UI'' @ [NL]) []),
         101 := Some (plainIssue ''Cart page'' [] []))) 102"

text \<open>The parent's body names issue 101 in its prose and lists issue 5.\<close>

definition mentionRepo :: repository where
  "mentionRepo =
     repositoryOf ((\<lambda>n. None)
        (100 := Some (plainIssue ''Checkout''
                        (''Starts after #101.'' @ [NL] @ ''- [ ] #5 API'' @ [NL]) []),
         101 := Some (plainIssue ''Cart page'' [] []))) 102"

text \<open>The parent's task list has issue 100; issue 10 is to be linked.\<close>

definition backlogRepo :: repository where
  "backlogRepo =
     repositoryOf ((\<lambda>n. None)
        (7 := Some (plainIssue ''Release'' (''- [ ] #100 Setup'' @ [NL]) []),
         10 := Some (plainIssue ''Changelog'' [] []),
         100 := Some (plainIssue ''Setup'' [] []))) 101"

text \<open>A message format for the examples: the text the error was constructed with.\<close>

definition plainFormat :: messageFormat where
  "plainFormat code text = text"

text \<open>A new issue whose parent does not exist.\<close>

definition orphanArgs :: createArgs where
  "orphanArgs =
     \<lparr>newTitle = ''Wishlist'', newBody = None, newLabels = [], newAssignees = [],
      newMilestone = None, newParent = Some 999\<rparr>"

section \<open>Evaluation rules\<close>

lemmas text_eval =
  str_includes_def sublist_code combinedText_def concatenatedText_def toLowerCase_def
  lowerChar_def

lemmas store_eval =
  linkIssues_def Let_def fetchIssue_def queryIssue_def addComment_def updateIssueBody_def modifyIssue_def
  parentCommentFor_def childCommentFor_def markChildBody_def parentRefFor_def
  replaceParentBlock_def parentBlockLiteral_def plainIssue_def repositoryOf_def

lemmas number_eval = showNat.simps digitChar_def parseInt_def digitVal_def isDigit_def

lemmas task_eval =
  augmentTaskList_def childTaskItem_def hasTaskList_def replaceBlocks_def taskListBlocks_def
  blockAt_def taskLine_def taskLines.simps lineTerminator_def trimEnd_def isWhiteSpace_def

lemmas read_eval =
  getIssueHierarchy_def discoveredChildren_def relatedEntry_def childNumbersOf_def setAdd_def
  sortChildren_def orderOf_def typeOrder_def detectIssueType_def

section \<open>Decimal numerals\<close>

lemma digitChar_isDigit: "d < 10 \<Longrightarrow> isDigit (digitChar d)"
proof -
  assume "d < 10"
  then have "d \<in> {0, 1, 2, 3, 4, 5, 6, 7, 8, 9}" by auto
  then show ?thesis by (auto simp: isDigit_def digitChar_def)
qed

lemma digitVal_digitChar: "d < 10 \<Longrightarrow> digitVal (digitChar d) = d"
proof -
  assume "d < 10"
  then have "d \<in> {0, 1, 2, 3, 4, 5, 6, 7, 8, 9}" by auto
  then show ?thesis by (auto simp: digitVal_def digitChar_def)
qed

lemma showNat_digits: "c \<in> set (showNat n) \<Longrightarrow> isDigit c"
proof (induction n arbitrary: c rule: showNat.induct)
  case (1 n)
  show ?case
  proof (cases "n < 10")
    case True
    with "1.prems" show ?thesis
      by (subst (asm) showNat.simps) (simp add: digitChar_isDigit)
  next
    case False
    with "1.prems" have "c \<in> set (showNat (n div 10)) \<or> c = digitChar (n mod 10)"
      by (subst (asm) showNat.simps) auto
    with "1.IH" [OF False] show ?thesis
      by (auto simp: digitChar_isDigit)
  qed
qed

lemma showNat_not_Nil: "showNat n \<noteq> []"
  by (subst showNat.simps) simp

lemma parseInt_append: "parseInt (ds @ [c]) = 10 * parseInt ds + digitVal c"
  by (simp add: parseInt_def)

lemma parseInt_showNat: "parseInt (showNat n) = n"
proof (induction n rule: showNat.induct)
  case (1 n)
  show ?case
  proof (cases "n < 10")
    case True
    then show ?thesis
      by (subst showNat.simps) (simp add: parseInt_def digitVal_digitChar)
  next
    case False
    have "parseInt (showNat n) = 10 * parseInt (showNat (n div 10)) + digitVal (digitChar (n mod 10))"
      using False by (subst showNat.simps) (simp add: parseInt_append)
    with "1.IH" [OF False] show ?thesis
      by (simp add: digitVal_digitChar)
  qed
qed

lemma digitAt_showNat: "digitAt (showNat n @ rest)"
proof (cases "showNat n")
  case Nil
  with showNat_not_Nil show ?thesis by simp
next
  case (Cons d ds)
  then have "d \<in> set (showNat n)" by simp
  then have "isDigit d" by (rule showNat_digits)
  with Cons show ?thesis by simp
qed

lemma takeWhile_showNat:
  "\<not> digitAt rest \<Longrightarrow> takeWhile isDigit (showNat n @ rest) = showNat n"
  by (cases rest) (simp_all add: takeWhile_append2 showNat_digits takeWhile_eq_all_conv [THEN iffD2])

lemma dropWhile_showNat:
  "\<not> digitAt rest \<Longrightarrow> dropWhile isDigit (showNat n @ rest) = rest"
  by (cases rest) (simp_all add: dropWhile_append2 showNat_digits)

lemma isDigit_not_lineTerminator: "isDigit c \<Longrightarrow> \<not> lineTerminator c"
  by (auto simp: isDigit_def lineTerminator_def)

section \<open>Reading the repository after a mutation\<close>

lemma queryIssue_found [simp]: "fetchIssue g n = Some i \<Longrightarrow> queryIssue g n = Inr (Some i)"
  by (cases g) (simp_all add: queryIssue_def fetchIssue_def)

lemma queryIssue_missing: "fetchIssue g n = None \<Longrightarrow> queryIssue g n \<noteq> Inr (Some i)"
  by (cases g) (auto simp: queryIssue_def fetchIssue_def split: option.splits)

text \<open>A link that misses an issue fails and leaves the repository as it was.\<close>

lemma linkIssues_miss_unchanged:
  assumes "fetchIssue g (parentIssueNumber args) = None \<or>
           fetchIssue g (childIssueNumber args) = None"
  shows "\<exists>e. linkIssues args g = (Inl e, g)"
  using assms
  by (auto simp: linkIssues_def Let_def queryIssue_missing split: sum.splits option.splits)

lemma linkIssues_failure_unchanged: "linkIssues args g = (Inl e, g') \<Longrightarrow> g' = g"
  by (auto simp: linkIssues_def Let_def split: sum.splits option.splits)

lemma fetchIssue_modifyIssue:
  "fetchIssue (modifyIssue n f g) m = (if m = n then map_option f (fetchIssue g n) else fetchIssue g m)"
  by (simp add: fetchIssue_def modifyIssue_def split: option.splits)

lemma fetchIssue_addComment:
  "fetchIssue (addComment n text g) m =
     (if m = n then map_option (\<lambda>i. i\<lparr>issueComments := issueComments i @ [text]\<rparr>) (fetchIssue g n)
      else fetchIssue g m)"
  by (simp add: addComment_def fetchIssue_modifyIssue)

lemma fetchIssue_updateIssueBody:
  "fetchIssue (updateIssueBody n text g) m =
     (if m = n then map_option (\<lambda>i. i\<lparr>issueBody := text\<rparr>) (fetchIssue g n)
      else fetchIssue g m)"
  by (simp add: updateIssueBody_def fetchIssue_modifyIssue)

lemmas fetch_after = fetchIssue_addComment fetchIssue_updateIssueBody

text \<open>What a \<open>tracks\<close> link leaves in the repository.\<close>

lemma linkIssues_tracks_parent:
  assumes "fetchIssue g p = Some parent" and "fetchIssue g c = Some child"
  shows "\<exists>i. fetchIssue (snd (linkIssues \<lparr>parentIssueNumber = p, childIssueNumber = c,
                                            linkType = Some ''tracks''\<rparr> g)) p = Some i \<and>
             issueBody i = augmentTaskList c (issueTitle child) (issueBody parent) \<and>
             issueTitle i = issueTitle parent \<and>
             (p \<noteq> c \<longrightarrow> issueComments i = issueComments parent @ [''Tracks #'' @ showNat c])"
  using assms
  by (auto simp: linkIssues_def Let_def fetch_after parentCommentFor_def childCommentFor_def)

lemma linkIssues_tracks_child:
  assumes "fetchIssue g p = Some parent" and "fetchIssue g c = Some child" and "p \<noteq> c"
  shows "\<exists>i. fetchIssue (snd (linkIssues \<lparr>parentIssueNumber = p, childIssueNumber = c,
                                            linkType = Some ''tracks''\<rparr> g)) c = Some i \<and>
             issueBody i = markChildBody p (issueTitle parent) (issueBody child) \<and>
             issueTitle i = issueTitle child"
  using assms
  by (auto simp: linkIssues_def Let_def fetch_after parentCommentFor_def childCommentFor_def)

lemma trackedNumbers_head:
  "digitAt ds \<Longrightarrow>
   trackedNumbers (''Tracks #'' @ ds) =
     parseInt (takeWhile isDigit ds) # trackedNumbers (dropWhile isDigit ds)"
  by simp

lemma trackedNumbers_comment: "trackedNumbers (''Tracks #'' @ showNat c) = [c]"
proof -
  have tw: "takeWhile isDigit (showNat c) = showNat c"
    using takeWhile_showNat [of "[]" c] by simp
  have dw: "dropWhile isDigit (showNat c) = []"
    using dropWhile_showNat [of "[]" c] by simp
  have "digitAt (showNat c)"
    using digitAt_showNat [of c "[]"] by simp
  then have "trackedNumbers (''Tracks #'' @ showNat c) =
      parseInt (takeWhile isDigit (showNat c)) # trackedNumbers (dropWhile isDigit (showNat c))"
    by (rule trackedNumbers_head)
  also have "\<dots> = [c]"
    by (simp only: tw dw parseInt_showNat trackedNumbers.simps)
  finally show ?thesis .
qed

lemma setAdd_member: "n \<in> set (setAdd seen n)"
  by (simp add: setAdd_def)

lemma childNumbersOf_snoc:
  "childNumbersOf (cms @ [x]) = foldl setAdd (childNumbersOf cms) (trackedNumbers x)"
  by (simp add: childNumbersOf_def)

lemma childNumbersOf_tracks: "c \<in> set (childNumbersOf (cms @ [''Tracks #'' @ showNat c]))"
  by (simp only: childNumbersOf_snoc trackedNumbers_comment foldl.simps setAdd_member)

lemma relatedEntry_found:
  "fetchIssue g n = Some i \<Longrightarrow> \<exists>e. relatedEntry g n = [e] \<and> entryNumber e = n"
  by (simp add: relatedEntry_def)

lemma children_contain:
  assumes "n \<in> set ns" and "fetchIssue g n = Some i"
  shows "n \<in> entryNumber ` set (sortChildren (concat (map (relatedEntry g) ns)))"
proof -
  from relatedEntry_found [OF assms(2)] obtain e
    where e: "relatedEntry g n = [e]" "entryNumber e = n" by blast
  with assms(1) have "e \<in> set (concat (map (relatedEntry g) ns))"
    by force
  then have "e \<in> set (sortChildren (concat (map (relatedEntry g) ns)))"
    by (simp add: sortChildren_def)
  with e(2) show ?thesis by force
qed

lemma childNumbersOf_no_reference: "childNumbersOf (replicate n ''ok'') = []"
proof -
  have "foldl (\<lambda>seen comment. foldl setAdd seen (trackedNumbers comment)) acc
          (replicate n ''ok'') = acc" for acc
    by (induction n) simp_all
  then show ?thesis by (simp add: childNumbersOf_def)
qed

lemma first_page_full: "take 100 (replicate 100 ''ok'' @ extra) = replicate 100 ''ok''"
  by simp

section \<open>Reading the parent marker back\<close>

lemma prefix_across:
  assumes "prefix l (b @ r)" and "r \<noteq> []" and "hd r \<notin> set l"
  shows "prefix l b"
proof -
  from assms(1) consider "prefix l b" | us where "l = b @ us" "prefix us r"
    by (auto simp: prefix_append)
  then show ?thesis
  proof cases
    case 1
    then show ?thesis .
  next
    case 2
    show ?thesis
    proof (cases us)
      case Nil
      with 2 show ?thesis by simp
    next
      case (Cons u us')
      with 2(2) assms(2) have "hd r = u" by (cases r) auto
      with 2(1) Cons assms(3) show ?thesis by simp
    qed
  qed
qed

lemma parentMatch_marker:
  "parentMatch (''**Parent:** #'' @ showNat p @ '' - '' @ t) = Some p"
proof -
  have "takeWhile isDigit (showNat p @ '' - '' @ t) = showNat p"
    by (rule takeWhile_showNat) (simp add: isDigit_def)
  then show ?thesis
    by (simp add: digitAt_showNat parseInt_showNat)
qed

lemma parentMatch_appended:
  assumes "\<not> str_includes b ''**Parent:**''"
  shows "parentMatch (b @ parentRefFor p t) = Some p"
  using assms
proof (induction b)
  case Nil
  then show ?case
    using parentMatch_marker [of p t] by (simp add: parentRefFor_def)
next
  case (Cons x xs)
  have "\<not> prefix ''**Parent:** #'' (x # xs @ parentRefFor p t)"
  proof
    assume "prefix ''**Parent:** #'' (x # xs @ parentRefFor p t)"
    then have "prefix ''**Parent:** #'' ((x # xs) @ parentRefFor p t)"
      by (simp only: append_Cons)
    then have "prefix ''**Parent:** #'' (x # xs)"
      by (rule prefix_across) (simp_all add: parentRefFor_def)
    moreover have "''**Parent:** #'' = ''**Parent:**'' @ '' #''" by simp
    ultimately have "prefix (''**Parent:**'' @ '' #'') (x # xs)" by (simp only:)
    then have "prefix ''**Parent:**'' (x # xs)"
      by (rule append_prefixD)
    then have "sublist ''**Parent:**'' (x # xs)"
      by (rule prefix_imp_sublist)
    with Cons.prems show False by (simp add: str_includes_def)
  qed
  moreover from Cons.prems have "\<not> str_includes xs ''**Parent:**''"
    by (simp add: str_includes_def sublist_Cons_right)
  ultimately show ?case
    using Cons.IH by (simp only: append_Cons parentMatch.simps simp_thms if_False)
qed

text \<open>
  The replace branch. A body whose first \<^verbatim>\<open>**Parent:**\<close> starts a marker block, with
  text after it on its line, has that block found by the pattern, and the new marker
  is written in its place: the replacement's own text up to the title has no dollar
  sign, so it is copied as it is.
\<close>

lemma getSubstitution_literal:
  "CHR ''$'' \<notin> set a \<Longrightarrow>
   getSubstitution m pre post (a @ b) = a @ getSubstitution m pre post b"
proof (induction a)
  case Nil
  then show ?case by simp
next
  case (Cons c a)
  then have ih: "getSubstitution m pre post (a @ b) = a @ getSubstitution m pre post b"
    and c: "c \<noteq> CHR ''$''" by auto
  show ?case
  proof (cases "a @ b")
    case Nil
    then show ?thesis by simp
  next
    case (Cons d r)
    then have "getSubstitution m pre post ((c # a) @ b) = c # getSubstitution m pre post (a @ b)"
      using c by simp
    with ih show ?thesis by simp
  qed
qed

text \<open>
  A literal \<open>h @ m\<close> does not start inside \<open>b\<close> when \<open>b\<close> is followed by \<open>h @ m\<close>, has
  no \<open>m\<close> in it, and no character of \<open>h\<close> occurs in \<open>m\<close>.
\<close>

lemma no_literal_before:
  assumes b: "b \<noteq> []" and h: "h \<noteq> []" and free: "\<not> sublist m b"
    and apart: "set h \<inter> set m = {}"
  shows "\<not> prefix (h @ m) (b @ h @ m @ rest)"
proof
  assume "prefix (h @ m) (b @ h @ m @ rest)"
  then obtain s' where s': "b @ h @ m @ rest = h @ (m @ s')" by (auto simp: prefix_def)
  have "drop (length h) (b @ h @ m @ rest) = m @ s'"
    by (subst s') simp
  then have p: "prefix m (drop (length h) b @ drop (length h - length b) (h @ m @ rest))"
    by simp
  define j where "j = length h - length b"
  have "j < length h" using b h by (cases b; cases h) (auto simp: j_def)
  then obtain c t where ct: "drop j h = c # t" by (cases "drop j h") auto
  then have "c \<in> set h" by (metis in_set_dropD list.set_intros(1))
  with apart have c: "c \<notin> set m" by auto
  have "drop j (h @ m @ rest) = c # (t @ m @ rest)"
    using ct \<open>j < length h\<close> by simp
  with p have "prefix m (drop (length h) b @ c # (t @ m @ rest))" by (simp add: j_def)
  then have "prefix m (drop (length h) b)"
    by (rule prefix_across [where r = "c # (t @ m @ rest)"]) (use c in simp_all)
  then have "sublist m (drop (length h) b)" by (rule prefix_imp_sublist)
  moreover have "sublist (drop (length h) b) b" by (rule sublist_drop)
  ultimately have "sublist m b" by (rule sublist_order.order.trans)
  with free show False by simp
qed

lemma parentBlockLiteral_parts:
  "parentBlockLiteral = [NL, NL, CHR ''-'', CHR ''-'', CHR ''-'', NL] @ ''**Parent:**''"
  by (simp add: parentBlockLiteral_def)

lemma no_block_before:
  assumes "b \<noteq> []" and "\<not> str_includes b ''**Parent:**''"
  shows "\<not> prefix parentBlockLiteral (b @ parentBlockLiteral @ rest)"
proof -
  have "\<not> prefix ([NL, NL, CHR ''-'', CHR ''-'', CHR ''-'', NL] @ ''**Parent:**'')
            (b @ [NL, NL, CHR ''-'', CHR ''-'', CHR ''-'', NL] @ ''**Parent:**'' @ rest)"
    using assms by (intro no_literal_before) (simp_all add: str_includes_def)
  then show ?thesis by (simp add: parentBlockLiteral_parts)
qed

lemma findParentBlock_unfold:
  "s \<noteq> [] \<Longrightarrow>
   findParentBlock s =
     (if prefix parentBlockLiteral s \<and>
         (case drop 17 s of [] \<Rightarrow> False | d # ds \<Rightarrow> \<not> lineTerminator d)
      then Some ([],
                 parentBlockLiteral @ takeWhile (\<lambda>d. \<not> lineTerminator d) (drop 17 s),
                 dropWhile (\<lambda>d. \<not> lineTerminator d) (drop 17 s))
      else (case findParentBlock (tl s) of
              None \<Rightarrow> None
            | Some (pre, matched, post) \<Rightarrow> Some (hd s # pre, matched, post)))"
proof (cases s)
  case Nil
  assume "s \<noteq> []"
  with Nil show ?thesis by simp
next
  case (Cons a list)
  show ?thesis
    unfolding Cons by (simp only: findParentBlock.simps list.sel)
qed

lemma findParentBlock_block:
  assumes "\<not> str_includes b ''**Parent:**''" and "\<not> lineTerminator d"
  shows "findParentBlock (b @ parentBlockLiteral @ d # ds) =
           Some (b, parentBlockLiteral @ takeWhile (\<lambda>d. \<not> lineTerminator d) (d # ds),
                 dropWhile (\<lambda>d. \<not> lineTerminator d) (d # ds))"
  using assms(1)
proof (induction b)
  case Nil
  have "length parentBlockLiteral = 17" by (simp add: parentBlockLiteral_def)
  then have "drop 17 (parentBlockLiteral @ d # ds) = d # ds" by simp
  moreover have "parentBlockLiteral @ d # ds \<noteq> []" by simp
  moreover have "prefix parentBlockLiteral (parentBlockLiteral @ d # ds)" by simp
  ultimately show ?case
    using assms(2) by (simp only: append_Nil findParentBlock_unfold list.case simp_thms if_True)
next
  case (Cons x xs)
  have "\<not> prefix parentBlockLiteral ((x # xs) @ parentBlockLiteral @ d # ds)"
    using Cons.prems by (intro no_block_before) simp_all
  moreover from Cons.prems have "\<not> str_includes xs ''**Parent:**''"
    by (simp add: str_includes_def sublist_Cons_right)
  then have "findParentBlock (xs @ parentBlockLiteral @ d # ds) =
           Some (xs, parentBlockLiteral @ takeWhile (\<lambda>d. \<not> lineTerminator d) (d # ds),
                 dropWhile (\<lambda>d. \<not> lineTerminator d) (d # ds))"
    by (rule Cons.IH)
  moreover have "(x # xs) @ parentBlockLiteral @ d # ds \<noteq> []" by simp
  ultimately show ?case
    by (simp only: append_Cons findParentBlock.simps simp_thms if_False option.case prod.case)
qed

lemma parentRefFor_parts:
  "parentRefFor p t = ([NL, NL] @ ''---'' @ [NL] @ ''**Parent:** #'' @ showNat p @ '' - '') @ t"
  by (simp add: parentRefFor_def)

lemma parentRefFor_plain:
  "CHR ''$'' \<notin> set ([NL, NL] @ ''---'' @ [NL] @ ''**Parent:** #'' @ showNat p @ '' - '')"
  using showNat_digits [of "CHR ''$''" p] by (auto simp: isDigit_def)

lemma getSubstitution_parentRef:
  "getSubstitution m pre post (parentRefFor p t) = parentRefFor p (getSubstitution m pre post t)"
  by (simp only: parentRefFor_parts getSubstitution_literal [OF parentRefFor_plain])

lemma parentRefFor_append: "parentRefFor p t @ r = parentRefFor p (t @ r)"
  by (simp add: parentRefFor_def)

lemma markChildBody_block:
  assumes "\<not> str_includes b ''**Parent:**''" and "\<not> lineTerminator d"
  shows "\<exists>t'. markChildBody p t (b @ parentBlockLiteral @ d # ds) = b @ parentRefFor p t'"
proof -
  have "b @ parentBlockLiteral @ d # ds =
          (b @ [NL, NL, CHR ''-'', CHR ''-'', CHR ''-'', NL]) @ ''**Parent:**'' @ (d # ds)"
    by (simp add: parentBlockLiteral_def)
  then have "sublist ''**Parent:**'' (b @ parentBlockLiteral @ d # ds)"
    by (simp only: sublist_appendI)
  then have "markChildBody p t (b @ parentBlockLiteral @ d # ds) =
      replaceParentBlock (b @ parentBlockLiteral @ d # ds) (parentRefFor p t)"
    by (simp add: markChildBody_def str_includes_def)
  also have "\<dots> = b @ parentRefFor p
      (getSubstitution (parentBlockLiteral @ takeWhile (\<lambda>d. \<not> lineTerminator d) (d # ds)) b
         (dropWhile (\<lambda>d. \<not> lineTerminator d) (d # ds)) t @
       dropWhile (\<lambda>d. \<not> lineTerminator d) (d # ds))"
    by (simp only: replaceParentBlock_def findParentBlock_block [OF assms] option.case prod.case
          getSubstitution_parentRef parentRefFor_append)
  finally show ?thesis by blast
qed

lemma parentMatch_relinked:
  assumes "\<not> str_includes b ''**Parent:**''" and "\<not> lineTerminator d"
  shows "parentMatch (markChildBody p t (b @ parentBlockLiteral @ d # ds)) = Some p"
proof -
  from markChildBody_block [OF assms, of p t ds] obtain t'
    where "markChildBody p t (b @ parentBlockLiteral @ d # ds) = b @ parentRefFor p t'"
    by blast
  with parentMatch_appended [OF assms(1), of p t'] show ?thesis by simp
qed

section \<open>The task list after a link\<close>

text \<open>The task item of a child with a title of one line is matched as a task line.\<close>

lemma dropWhile_item:
  assumes "\<forall>ch\<in>set t. \<not> lineTerminator ch"
  shows "dropWhile (\<lambda>ch. \<not> lineTerminator ch) (showNat n @ '' '' @ t @ NL # rest) = NL # rest"
proof -
  have "\<not> lineTerminator ch" if "ch \<in> set (showNat n @ '' '' @ t)" for ch
  proof -
    from that consider "ch \<in> set (showNat n)" | "ch = CHR '' ''" | "ch \<in> set t" by auto
    then show ?thesis
    proof cases
      case 1
      then show ?thesis by (intro isDigit_not_lineTerminator showNat_digits)
    next
      case 2
      then show ?thesis by (simp add: lineTerminator_def)
    next
      case 3
      with assms show ?thesis by blast
    qed
  qed
  then have "dropWhile (\<lambda>ch. \<not> lineTerminator ch) ((showNat n @ '' '' @ t) @ NL # rest) =
             dropWhile (\<lambda>ch. \<not> lineTerminator ch) (NL # rest)"
    by (rule dropWhile_append2)
  also have "\<dots> = NL # rest" by (simp add: lineTerminator_def)
  finally show ?thesis by simp
qed

lemma taskLine_item:
  assumes "\<forall>ch\<in>set t. \<not> lineTerminator ch"
  shows "taskLine (childTaskItem n t @ NL # rest) = Some rest"
proof -
  have "drop 7 (childTaskItem n t @ NL # rest) = showNat n @ '' '' @ t @ NL # rest"
    by (simp add: childTaskItem_def)
  moreover have "prefix ''- ['' (childTaskItem n t @ NL # rest)"
    "checkboxAt (drop 3 (childTaskItem n t @ NL # rest))"
    "prefix ''] #'' (drop 4 (childTaskItem n t @ NL # rest))"
    by (simp_all add: childTaskItem_def)
  moreover have "digitAt (showNat n @ '' '' @ t @ NL # rest)"
    by (rule digitAt_showNat)
  ultimately show ?thesis
    unfolding taskLine_def
    by (simp only: dropWhile_item [OF assms] simp_thms if_True list.case)
qed


lemma taskLines_item:
  assumes "\<forall>ch\<in>set t. \<not> lineTerminator ch"
  shows "taskLines (childTaskItem n t @ NL # rest) \<noteq> None"
proof -
  have "taskLines (childTaskItem n t @ NL # rest) =
          (case taskLines rest of None \<Rightarrow> Some rest | Some r' \<Rightarrow> Some r')"
    by (subst taskLines.simps) (simp only: taskLine_item [OF assms] option.case)
  then show ?thesis by (simp split: option.splits)
qed

lemma searchBlock_item:
  assumes "\<forall>ch\<in>set t. \<not> lineTerminator ch"
  shows "searchBlock bol (x @ NL # childTaskItem n t @ NL # rest)"
proof (induction x arbitrary: bol)
  case Nil
  have "blockAt bol (NL # childTaskItem n t @ NL # rest) \<noteq> None"
    using taskLines_item [OF assms, of n rest]
    by (auto simp: blockAt_def split: option.splits)
  then show ?case by simp
next
  case (Cons a x)
  show ?case
    using Cons.IH [of "lineTerminator a"]
    by (simp only: append_Cons searchBlock.simps split: if_split) simp
qed

text \<open>The output of the replacement, seen through the scan.\<close>

lemma scanBlocks_item:
  assumes "searchBlock bol s"
  shows "\<exists>x y. concat (map (case_sum (\<lambda>m. trimEnd m @ [NL] @ item @ [NL]) (\<lambda>c. [c]))
                  (scanBlocks bol s)) = x @ NL # item @ NL # y"
  using assms
proof (induction s arbitrary: bol rule: length_induct)
  case (1 s)
  let ?out = "\<lambda>bol s. concat (map (case_sum (\<lambda>m. trimEnd m @ [NL] @ item @ [NL]) (\<lambda>c. [c]))
                  (scanBlocks bol s))"
  from "1.prems" obtain c cs where s: "s = c # cs" by (cases s) simp_all
  show ?case
  proof (cases "blockAt bol (c # cs)")
    case None
    with "1.prems" s have "searchBlock (lineTerminator c) cs" by simp
    with "1.IH" s obtain x y
      where "?out (lineTerminator c) cs = x @ NL # item @ NL # y"
      by fastforce
    with None s have "?out bol s = (c # x) @ NL # item @ NL # y" by simp
    then show ?thesis by blast
  next
    case (Some r)
    with s have "?out bol s =
        trimEnd (take (length (c # cs) - length r) (c # cs)) @ NL # item @ NL # ?out True r"
      by simp
    then show ?thesis by blast
  qed
qed

lemma replaceBlocks_item:
  assumes "hasTaskList s"
  shows "\<exists>x y. replaceBlocks (\<lambda>m. trimEnd m @ [NL] @ item @ [NL]) s = x @ NL # item @ NL # y"
  using assms scanBlocks_item [of True s item]
  by (simp add: hasTaskList_def replaceBlocks_def)

lemma item_shape:
  assumes "\<forall>ch\<in>set t. \<not> lineTerminator ch"
  shows "hasTaskList (x @ NL # childTaskItem n t @ NL # y) \<and>
         str_includes (x @ NL # childTaskItem n t @ NL # y) (''#'' @ showNat n)"
proof
  show "hasTaskList (x @ NL # childTaskItem n t @ NL # y)"
    unfolding hasTaskList_def by (rule searchBlock_item [OF assms])
  have "x @ NL # childTaskItem n t @ NL # y =
          (x @ NL # ''- [ ] '') @ (''#'' @ showNat n) @ ('' '' @ t @ NL # y)"
    by (simp add: childTaskItem_def)
  then show "str_includes (x @ NL # childTaskItem n t @ NL # y) (''#'' @ showNat n)"
    unfolding str_includes_def by (simp only: sublist_appendI)
qed

lemma augmentTaskList_listed:
  assumes "\<forall>ch\<in>set t. \<not> lineTerminator ch"
  shows "hasTaskList (augmentTaskList n t b) \<and>
         str_includes (augmentTaskList n t b) (''#'' @ showNat n)"
proof -
  consider (listed) "hasTaskList b" "str_includes b (''#'' @ showNat n)"
    | (extend) "hasTaskList b" "\<not> str_includes b (''#'' @ showNat n)"
    | (new) "\<not> hasTaskList b" by blast
  then show ?thesis
  proof cases
    case listed
    then show ?thesis by (simp add: augmentTaskList_def)
  next
    case extend
    from replaceBlocks_item [OF extend(1), of "childTaskItem n t"] obtain x y
      where "replaceBlocks (\<lambda>m. trimEnd m @ [NL] @ childTaskItem n t @ [NL]) b =
               x @ NL # childTaskItem n t @ NL # y"
      by blast
    with extend have "augmentTaskList n t b = x @ NL # childTaskItem n t @ NL # y"
      by (simp add: augmentTaskList_def)
    with item_shape [OF assms, of x n y] show ?thesis by (simp only:)
  next
    case new
    then have "augmentTaskList n t b = ''### Tasks'' @ NL # childTaskItem n t @ NL # (NL # b)"
      by (simp add: augmentTaskList_def)
    with item_shape [OF assms, of "''### Tasks''" n "NL # b"] show ?thesis by (simp only:)
  qed
qed

lemma augmentTaskList_idempotent:
  assumes "\<forall>ch\<in>set t. \<not> lineTerminator ch"
  shows "augmentTaskList n t (augmentTaskList n t b) = augmentTaskList n t b"
  using augmentTaskList_listed [OF assms, of n b]
  by (subst augmentTaskList_def) (simp only: simp_thms if_True if_False)

section \<open>Claims about the classifier\<close>

text \<open>
  C10. Classification is by substring containment, not by whole words: the title
  "epicenter" is no keyword, contains the keyword "epic" inside a longer word, and is
  classified as an epic rather than left unclassified.
\<close>

theorem detectIssueType_substring:
  "detectIssueType ''epicenter'' None = Some ''epic'' \<and>
   str_includes (combinedText ''epicenter'' None) ''epic'' \<and>
   ''epicenter'' \<noteq> ''epic''"
  by (simp add: detectIssueType_def text_eval)

text \<open>
  C2, as amended. The text examined is the title, one space and the body (nothing for
  an absent body), in lower case; the result is the first category, in the order epic,
  feature, bug, task, story, documentation, one of whose keywords occurs in that text,
  so a text with keywords of several categories gets the one tested first. The title
  "Epic: Implement user authentication system" contains the feature keyword
  "implement" and is an epic.
\<close>

theorem detectIssueType_first_match:
  "detectIssueType t b = firstCategory (combinedText t b) \<and>
   map fst keywordTable =
     [''epic'', ''feature'', ''bug'', ''task'', ''story'', ''documentation''] \<and>
   detectIssueType ''Epic: Implement user authentication system'' None = Some ''epic'' \<and>
   str_includes (combinedText ''Epic: Implement user authentication system'' None)
     ''implement''"
proof -
  have "detectIssueType t b = firstCategory (combinedText t b)"
    by (simp add: detectIssueType_def firstCategory_def keywordTable_def Let_def)
  moreover have "map fst keywordTable =
      [''epic'', ''feature'', ''bug'', ''task'', ''story'', ''documentation'']"
    by (simp add: keywordTable_def)
  moreover have
    "detectIssueType ''Epic: Implement user authentication system'' None = Some ''epic''"
    by (simp add: detectIssueType_def text_eval)
  moreover have
    "str_includes (combinedText ''Epic: Implement user authentication system'' None)
       ''implement''"
    by (simp add: text_eval)
  ultimately show ?thesis by (intro conjI)
qed

text \<open>
  C2 as stated fails: the title "Bug: cannot add" with the body "support team to
  task" concatenates to "bug: cannot addsupport team to task", which has a bug keyword
  and a task keyword and no feature keyword, so the claim promises a bug; the code
  examines "bug: cannot add support team to task", finds the feature keyword
  "add support" across the space it put in, and answers feature.
\<close>

theorem classify_concatenation_counterexample:
  "firstCategory (concatenatedText ''Bug: cannot add'' (Some ''support team to task'')) =
     Some ''bug'' \<and>
   str_includes (concatenatedText ''Bug: cannot add'' (Some ''support team to task'')) ''task'' \<and>
   detectIssueType ''Bug: cannot add'' (Some ''support team to task'') = Some ''feature''"
  by (simp add: detectIssueType_def firstCategory_def keywordTable_def text_eval)

section \<open>Claims about the order of the children\<close>

text \<open>
  C4. The children of the hierarchy of an existing issue are the discovered children
  sorted by the priority epic 0, feature 1, story 2, task 3, bug 4, documentation 5,
  unclassified 6: the priorities of the list ascend, the list has the same entries as
  the discovered one, and the entries of any one priority keep the order they were
  discovered in.
\<close>

theorem getIssueHierarchy_children_sorted:
  assumes "fetchIssue g n = Some i"
  shows "\<exists>h. getIssueHierarchy n g = Inr h \<and>
             children h = sortChildren (discoveredChildren g i) \<and>
             sorted (map (\<lambda>e. orderOf (entryType e)) (children h)) \<and>
             mset (children h) = mset (discoveredChildren g i) \<and>
             (\<forall>k. filter (\<lambda>e. orderOf (entryType e) = k) (children h) =
                  filter (\<lambda>e. orderOf (entryType e) = k) (discoveredChildren g i)) \<and>
             map orderOf [Some ''epic'', Some ''feature'', Some ''story'', Some ''task'',
                          Some ''bug'', Some ''documentation'', None] = [0, 1, 2, 3, 4, 5, 6]"
proof -
  let ?found = "discoveredChildren g i"
  obtain h where h: "getIssueHierarchy n g = Inr h" "children h = sortChildren ?found"
    using assms by (simp add: getIssueHierarchy_def)
  have "sorted (map (\<lambda>e. orderOf (entryType e)) (sortChildren ?found))"
    by (simp add: sortChildren_def)
  moreover have "mset (sortChildren ?found) = mset ?found"
    by (simp add: sortChildren_def)
  moreover have "filter (\<lambda>e. orderOf (entryType e) = k) (sortChildren ?found) =
      filter (\<lambda>e. orderOf (entryType e) = k) ?found" for k
    by (simp add: sortChildren_def sort_key_stable)
  moreover have "map orderOf [Some ''epic'', Some ''feature'', Some ''story'', Some ''task'',
      Some ''bug'', Some ''documentation'', None] = [0, 1, 2, 3, 4, 5, 6]"
    by (simp add: orderOf_def typeOrder_def)
  ultimately show ?thesis
    using h by (intro exI [of _ h]) simp
qed

theorem getIssueHierarchy_children_sorted_witness:
  "fetchIssue (Some sprintRepo) 1 =
     Some (plainIssue ''Checkout'' []
             [''Tracks #2'', ''Tracks #3'', ''Tracks #4'', ''Tracks #5'']) \<and>
   (\<exists>h. getIssueHierarchy 1 (Some sprintRepo) = Inr h \<and>
        sorted (map (\<lambda>e. orderOf (entryType e)) (children h)) \<and>
        mset (children h) =
          mset (discoveredChildren (Some sprintRepo)
                  (plainIssue ''Checkout'' []
                     [''Tracks #2'', ''Tracks #3'', ''Tracks #4'', ''Tracks #5''])))"
proof -
  have found: "fetchIssue (Some sprintRepo) 1 =
     Some (plainIssue ''Checkout'' []
             [''Tracks #2'', ''Tracks #3'', ''Tracks #4'', ''Tracks #5''])"
    by (simp add: sprintRepo_def fetchIssue_def repositoryOf_def)
  from getIssueHierarchy_children_sorted [OF found] found
  show ?thesis by blast
qed

text \<open>
  C3, as amended. Children of the types bug, epic, task, epic, discovered in that
  order, are sorted to epic, epic, task, bug: the two epics keep their discovery order,
  and the task comes before the bug.
\<close>

theorem sortChildren_example:
  assumes "entryType a = Some ''bug''" and "entryType b = Some ''epic''"
    and "entryType c = Some ''task''" and "entryType d = Some ''epic''"
  shows "sortChildren [a, b, c, d] = [b, d, c, a]"
  using assms by (simp add: sortChildren_def orderOf_def typeOrder_def)

theorem sortChildren_example_witness:
  "entryType (hd (relatedEntry (Some sprintRepo) 2)) = Some ''bug'' \<and>
   entryType (hd (relatedEntry (Some sprintRepo) 3)) = Some ''epic'' \<and>
   entryType (hd (relatedEntry (Some sprintRepo) 4)) = Some ''task'' \<and>
   entryType (hd (relatedEntry (Some sprintRepo) 5)) = Some ''epic'' \<and>
   map entryNumber
     (sortChildren [hd (relatedEntry (Some sprintRepo) 2), hd (relatedEntry (Some sprintRepo) 3),
                    hd (relatedEntry (Some sprintRepo) 4), hd (relatedEntry (Some sprintRepo) 5)]) =
     [3, 5, 4, 2]"
proof -
  have types:
    "entryType (hd (relatedEntry (Some sprintRepo) 2)) = Some ''bug''"
    "entryType (hd (relatedEntry (Some sprintRepo) 3)) = Some ''epic''"
    "entryType (hd (relatedEntry (Some sprintRepo) 4)) = Some ''task''"
    "entryType (hd (relatedEntry (Some sprintRepo) 5)) = Some ''epic''"
    by (simp_all add: sprintRepo_def relatedEntry_def fetchIssue_def plainIssue_def
          repositoryOf_def detectIssueType_def text_eval)
  have numbers:
    "entryNumber (hd (relatedEntry (Some sprintRepo) 2)) = 2"
    "entryNumber (hd (relatedEntry (Some sprintRepo) 3)) = 3"
    "entryNumber (hd (relatedEntry (Some sprintRepo) 4)) = 4"
    "entryNumber (hd (relatedEntry (Some sprintRepo) 5)) = 5"
    by (simp_all add: sprintRepo_def relatedEntry_def fetchIssue_def plainIssue_def
          repositoryOf_def)
  show ?thesis
    using types numbers sortChildren_example [OF types] by simp
qed

text \<open>
  C3 as stated fails: issue 1 tracks issues 2 to 5, which are a bug, an epic, a task
  and an epic; its hierarchy lists them as 3, 5, 4, 2, that is epic, epic, task, bug,
  and not epic, epic, bug, task.
\<close>

theorem children_sort_counterexample:
  "childNumbersOf [''Tracks #2'', ''Tracks #3'', ''Tracks #4'', ''Tracks #5''] = [2, 3, 4, 5] \<and>
   map entryType (concat (map (relatedEntry (Some sprintRepo)) [2, 3, 4, 5])) =
     [Some ''bug'', Some ''epic'', Some ''task'', Some ''epic''] \<and>
   getIssueHierarchy 1 (Some sprintRepo) =
     Inr \<lparr>current = \<lparr>entryNumber = 1, entryTitle = ''Checkout'', entryState = ''OPEN'',
                      entryLabels = [], entryType = None\<rparr>,
          parents = [],
          children =
            [\<lparr>entryNumber = 3, entryTitle = ''Epic: payments'', entryState = ''OPEN'',
              entryLabels = [], entryType = Some ''epic''\<rparr>,
             \<lparr>entryNumber = 5, entryTitle = ''Epic: search'', entryState = ''OPEN'',
              entryLabels = [], entryType = Some ''epic''\<rparr>,
             \<lparr>entryNumber = 4, entryTitle = ''Cleanup task'', entryState = ''OPEN'',
              entryLabels = [], entryType = Some ''task''\<rparr>,
             \<lparr>entryNumber = 2, entryTitle = ''Login bug'', entryState = ''OPEN'',
              entryLabels = [], entryType = Some ''bug''\<rparr>]\<rparr>"
  by (simp add: sprintRepo_def store_eval number_eval read_eval text_eval)

section \<open>Claims about linking\<close>

text \<open>
  C1, as amended. When issues \<open>p\<close> and \<open>c\<close> exist and are different, the parent has
  fewer than a hundred comments, and the first \<^verbatim>\<open>**Parent:**\<close> in the child's body, if
  there is one, starts a marker block (it comes right after a blank line and a line
  \<^verbatim>\<open>---\<close>, and has text after it on its line, as the marker of an earlier link has),
  then the link of kind \<open>tracks\<close> succeeds and, read back from the repository it
  leaves, the hierarchy of \<open>p\<close> has a child numbered \<open>c\<close> and the hierarchy of \<open>c\<close>
  has a parent numbered \<open>p\<close>. The marker is appended to a body without
  \<^verbatim>\<open>**Parent:**\<close> and written over the block of a body that has one.
\<close>

theorem link_hierarchy_round_trip:
  assumes parent: "fetchIssue g p = Some parent"
    and child: "fetchIssue g c = Some child"
    and distinct: "p \<noteq> c"
    and marker: "\<not> str_includes (issueBody child) ''**Parent:**'' \<or>
                 (\<exists>b d ds. issueBody child = b @ parentBlockLiteral @ d # ds \<and>
                            \<not> str_includes b ''**Parent:**'' \<and> \<not> lineTerminator d)"
    and page: "length (issueComments parent) < 100"
  shows "\<exists>answer g' h h'.
           linkIssues \<lparr>parentIssueNumber = p, childIssueNumber = c,
                       linkType = Some ''tracks''\<rparr> g = (Inr answer, g') \<and>
           getIssueHierarchy p g' = Inr h \<and> c \<in> entryNumber ` set (children h) \<and>
           getIssueHierarchy c g' = Inr h' \<and> p \<in> entryNumber ` set (parents h')"
proof -
  let ?args = "\<lparr>parentIssueNumber = p, childIssueNumber = c, linkType = Some ''tracks''\<rparr>"
  define g' where "g' = snd (linkIssues ?args g)"
  have ok: "linkIssues ?args g =
              (Inr (Linked (p, issueTitle parent) (c, issueTitle child) ''tracks''), g')"
    using parent child by (simp add: g'_def linkIssues_def Let_def)
  from linkIssues_tracks_parent [OF parent child] distinct obtain i
    where i: "fetchIssue g' p = Some i"
      "issueComments i = issueComments parent @ [''Tracks #'' @ showNat c]"
    unfolding g'_def by blast
  from linkIssues_tracks_child [OF parent child distinct] obtain j
    where j: "fetchIssue g' c = Some j"
      "issueBody j = markChildBody p (issueTitle parent) (issueBody child)"
    unfolding g'_def by blast
  have "take 100 (issueComments i) = issueComments parent @ [''Tracks #'' @ showNat c]"
    using i(2) page by simp
  then have "c \<in> set (childNumbersOf (take 100 (issueComments i)))"
    by (simp only: childNumbersOf_tracks)
  then have "c \<in> entryNumber ` set (sortChildren (concat (map (relatedEntry g')
                       (childNumbersOf (take 100 (issueComments i))))))"
    using j(1) by (rule children_contain)
  then have kids: "c \<in> entryNumber ` set (sortChildren (discoveredChildren g' i))"
    by (simp only: discoveredChildren_def)
  from marker have "parentMatch (markChildBody p (issueTitle parent) (issueBody child)) = Some p"
  proof
    assume "\<not> str_includes (issueBody child) ''**Parent:**''"
    then show ?thesis by (simp add: markChildBody_def parentMatch_appended)
  next
    assume "\<exists>b d ds. issueBody child = b @ parentBlockLiteral @ d # ds \<and>
              \<not> str_includes b ''**Parent:**'' \<and> \<not> lineTerminator d"
    then obtain b d ds where b: "issueBody child = b @ parentBlockLiteral @ d # ds"
      "\<not> str_includes b ''**Parent:**''" "\<not> lineTerminator d" by blast
    from parentMatch_relinked [OF b(2) b(3), of p "issueTitle parent" ds] show ?thesis
      by (simp only: b(1))
  qed
  then have "parentMatch (issueBody j) = Some p"
    by (simp only: j(2))
  moreover from relatedEntry_found [OF i(1)] obtain e
    where "relatedEntry g' p = [e]" "entryNumber e = p" by blast
  ultimately have folks: "p \<in> entryNumber ` set (case parentMatch (issueBody j) of
                             None \<Rightarrow> [] | Some n \<Rightarrow> relatedEntry g' n)"
    by simp
  have h: "getIssueHierarchy p g' = Inr
      \<lparr>current = \<lparr>entryNumber = p, entryTitle = issueTitle i, entryState = issueState i,
                   entryLabels = take 10 (issueLabels i),
                   entryType = detectIssueType (issueTitle i) (Some (issueBody i))\<rparr>,
       parents = (case parentMatch (issueBody i) of None \<Rightarrow> [] | Some n \<Rightarrow> relatedEntry g' n),
       children = sortChildren (discoveredChildren g' i)\<rparr>"
    (is "_ = Inr ?h")
    using queryIssue_found [OF i(1)]
    by (simp only: getIssueHierarchy_def sum.case option.case)
  have h': "getIssueHierarchy c g' = Inr
      \<lparr>current = \<lparr>entryNumber = c, entryTitle = issueTitle j, entryState = issueState j,
                   entryLabels = take 10 (issueLabels j),
                   entryType = detectIssueType (issueTitle j) (Some (issueBody j))\<rparr>,
       parents = (case parentMatch (issueBody j) of None \<Rightarrow> [] | Some n \<Rightarrow> relatedEntry g' n),
       children = sortChildren (discoveredChildren g' j)\<rparr>"
    (is "_ = Inr ?h'")
    using queryIssue_found [OF j(1)]
    by (simp only: getIssueHierarchy_def sum.case option.case)
  have "c \<in> entryNumber ` set (children ?h)"
    using kids by (simp only: hierarchy.select_convs)
  moreover have "p \<in> entryNumber ` set (parents ?h')"
    using folks by (simp only: hierarchy.select_convs)
  ultimately show ?thesis
    using ok h h' by (intro exI conjI)
qed

text \<open>
  The theorem on a child that was linked to issue 5 before, where the marker is
  written over the old block, and on a child with an empty body, where it is appended.
\<close>

theorem link_hierarchy_round_trip_witness:
  "fetchIssue (Some reparentRepo) 100 = Some (plainIssue ''Checkout'' [] []) \<and>
   fetchIssue (Some reparentRepo) 101 =
     Some (plainIssue ''Cart page''
             (''Details.'' @ [NL, NL] @ ''---'' @ [NL] @ ''**Parent:** #5 - Old'') []) \<and>
   (100::nat) \<noteq> 101 \<and>
   str_includes
     (issueBody (plainIssue ''Cart page''
                   (''Details.'' @ [NL, NL] @ ''---'' @ [NL] @ ''**Parent:** #5 - Old'') []))
     ''**Parent:**'' \<and>
   issueBody (plainIssue ''Cart page''
                (''Details.'' @ [NL, NL] @ ''---'' @ [NL] @ ''**Parent:** #5 - Old'') []) =
     ''Details.'' @ parentBlockLiteral @ CHR '' '' # ''#5 - Old'' \<and>
   \<not> str_includes ''Details.'' ''**Parent:**'' \<and> \<not> lineTerminator CHR '' '' \<and>
   length (issueComments (plainIssue ''Checkout'' [] [])) < 100 \<and>
   (\<exists>answer g' h h'.
      linkIssues \<lparr>parentIssueNumber = 100, childIssueNumber = 101,
                  linkType = Some ''tracks''\<rparr> (Some reparentRepo) = (Inr answer, g') \<and>
      getIssueHierarchy 100 g' = Inr h \<and> 101 \<in> entryNumber ` set (children h) \<and>
      getIssueHierarchy 101 g' = Inr h' \<and> 100 \<in> entryNumber ` set (parents h')) \<and>
   fetchIssue (Some freshRepo) 100 = Some (plainIssue ''Checkout'' [] []) \<and>
   fetchIssue (Some freshRepo) 101 = Some (plainIssue ''Cart page'' [] []) \<and>
   \<not> str_includes (issueBody (plainIssue ''Cart page'' [] [])) ''**Parent:**'' \<and>
   (\<exists>answer g' h h'.
      linkIssues \<lparr>parentIssueNumber = 100, childIssueNumber = 101,
                  linkType = Some ''tracks''\<rparr> (Some freshRepo) = (Inr answer, g') \<and>
      getIssueHierarchy 100 g' = Inr h \<and> 101 \<in> entryNumber ` set (children h) \<and>
      getIssueHierarchy 101 g' = Inr h' \<and> 100 \<in> entryNumber ` set (parents h'))"
proof -
  have parent: "fetchIssue (Some reparentRepo) 100 = Some (plainIssue ''Checkout'' [] [])"
    by (simp add: reparentRepo_def fetchIssue_def repositoryOf_def)
  have child: "fetchIssue (Some reparentRepo) 101 =
     Some (plainIssue ''Cart page''
             (''Details.'' @ [NL, NL] @ ''---'' @ [NL] @ ''**Parent:** #5 - Old'') [])"
    by (simp add: reparentRepo_def fetchIssue_def repositoryOf_def)
  have distinct: "(100::nat) \<noteq> 101" by simp
  have marked: "str_includes
     (issueBody (plainIssue ''Cart page''
                   (''Details.'' @ [NL, NL] @ ''---'' @ [NL] @ ''**Parent:** #5 - Old'') []))
     ''**Parent:**''"
    by (simp add: plainIssue_def text_eval)
  have block: "issueBody (plainIssue ''Cart page''
                (''Details.'' @ [NL, NL] @ ''---'' @ [NL] @ ''**Parent:** #5 - Old'') []) =
     ''Details.'' @ parentBlockLiteral @ CHR '' '' # ''#5 - Old''"
    by (simp add: plainIssue_def parentBlockLiteral_def)
  have before: "\<not> str_includes ''Details.'' ''**Parent:**''"
    by (simp add: text_eval)
  have line: "\<not> lineTerminator CHR '' ''"
    by (simp add: lineTerminator_def)
  have page: "length (issueComments (plainIssue ''Checkout'' [] [])) < 100"
    by (simp add: plainIssue_def)
  have marker: "\<not> str_includes
       (issueBody (plainIssue ''Cart page''
                     (''Details.'' @ [NL, NL] @ ''---'' @ [NL] @ ''**Parent:** #5 - Old'') []))
       ''**Parent:**'' \<or>
     (\<exists>b d ds. issueBody (plainIssue ''Cart page''
                   (''Details.'' @ [NL, NL] @ ''---'' @ [NL] @ ''**Parent:** #5 - Old'') []) =
                 b @ parentBlockLiteral @ d # ds \<and>
                \<not> str_includes b ''**Parent:**'' \<and> \<not> lineTerminator d)"
    using block before line by (intro disjI2 exI conjI)
  have parent': "fetchIssue (Some freshRepo) 100 = Some (plainIssue ''Checkout'' [] [])"
    by (simp add: freshRepo_def fetchIssue_def repositoryOf_def)
  have child': "fetchIssue (Some freshRepo) 101 = Some (plainIssue ''Cart page'' [] [])"
    by (simp add: freshRepo_def fetchIssue_def repositoryOf_def)
  have unmarked: "\<not> str_includes (issueBody (plainIssue ''Cart page'' [] [])) ''**Parent:**''"
    by (simp add: plainIssue_def str_includes_def)
  from link_hierarchy_round_trip [OF parent child distinct marker page]
    link_hierarchy_round_trip [OF parent' child' distinct disjI1 [OF unmarked] page]
    parent child distinct marked block before line page parent' child' unmarked
  show ?thesis by (intro conjI)
qed

text \<open>
  C1 as stated fails, in two ways. Issues 100 and 101 exist and the body of 101 is
  the line \<^verbatim>\<open>**Parent:** TBD\<close>: the link succeeds, the body contains \<^verbatim>\<open>**Parent:**\<close>, so
  the marker is not appended, and the pattern to replace does not match, so the body
  stays as it was; the hierarchy of 101, read back, has no parent. And where issue 100
  has a hundred comments before the link, the comment of the link is the next one,
  beyond the hundred that are fetched: the hierarchy of 100, read back, has no child.
\<close>

theorem link_hierarchy_counterexample:
  "fst (linkIssues \<lparr>parentIssueNumber = 100, childIssueNumber = 101,
                    linkType = Some ''tracks''\<rparr> (Some templateRepo)) =
     Inr (Linked (100, ''Checkout'') (101, ''Cart page'') ''tracks'') \<and>
   getIssueHierarchy 101
     (snd (linkIssues \<lparr>parentIssueNumber = 100, childIssueNumber = 101,
                        linkType = Some ''tracks''\<rparr> (Some templateRepo))) =
     Inr \<lparr>current = \<lparr>entryNumber = 101, entryTitle = ''Cart page'', entryState = ''OPEN'',
                      entryLabels = [], entryType = Some ''epic''\<rparr>,
          parents = [], children = []\<rparr> \<and>
   fst (linkIssues \<lparr>parentIssueNumber = 100, childIssueNumber = 101,
                    linkType = Some ''tracks''\<rparr> (Some busyRepo)) =
     Inr (Linked (100, ''Checkout'') (101, ''Cart page'') ''tracks'') \<and>
   getIssueHierarchy 100
     (snd (linkIssues \<lparr>parentIssueNumber = 100, childIssueNumber = 101,
                        linkType = Some ''tracks''\<rparr> (Some busyRepo))) =
     Inr \<lparr>current = \<lparr>entryNumber = 100, entryTitle = ''Checkout'', entryState = ''OPEN'',
                      entryLabels = [], entryType = Some ''task''\<rparr>,
          parents = [], children = []\<rparr>"
proof -
  have "fst (linkIssues \<lparr>parentIssueNumber = 100, childIssueNumber = 101,
                    linkType = Some ''tracks''\<rparr> (Some templateRepo)) =
     Inr (Linked (100, ''Checkout'') (101, ''Cart page'') ''tracks'') \<and>
   getIssueHierarchy 101
     (snd (linkIssues \<lparr>parentIssueNumber = 100, childIssueNumber = 101,
                        linkType = Some ''tracks''\<rparr> (Some templateRepo))) =
     Inr \<lparr>current = \<lparr>entryNumber = 101, entryTitle = ''Cart page'', entryState = ''OPEN'',
                      entryLabels = [], entryType = Some ''epic''\<rparr>,
          parents = [], children = []\<rparr>"
    by (simp add: templateRepo_def store_eval number_eval task_eval read_eval text_eval)
  moreover have "fst (linkIssues \<lparr>parentIssueNumber = 100, childIssueNumber = 101,
                    linkType = Some ''tracks''\<rparr> (Some busyRepo)) =
     Inr (Linked (100, ''Checkout'') (101, ''Cart page'') ''tracks'') \<and>
   getIssueHierarchy 100
     (snd (linkIssues \<lparr>parentIssueNumber = 100, childIssueNumber = 101,
                        linkType = Some ''tracks''\<rparr> (Some busyRepo))) =
     Inr \<lparr>current = \<lparr>entryNumber = 100, entryTitle = ''Checkout'', entryState = ''OPEN'',
                      entryLabels = [], entryType = Some ''task''\<rparr>,
          parents = [], children = []\<rparr>"
    by (simp add: busyRepo_def store_eval number_eval task_eval getIssueHierarchy_def
          discoveredChildren_def relatedEntry_def sortChildren_def detectIssueType_def
          text_eval first_page_full childNumbersOf_no_reference)
  ultimately show ?thesis by (simp only: simp_thms)
qed

text \<open>
  C7 fails on the code. Issue 102 does not exist, and the endpoint answers a query
  for it as GitHub does, with an \<^verbatim>\<open>errors\<close> entry. The client rejects the query for the
  missing issue, so \<open>linkIssues\<close> ends with the client's error before it reaches its
  own check for a missing child or a missing parent, and the request handler turns
  that error into an internal error: the call does not fail with the invalid-request
  error \<^verbatim>\<open>Child issue not found\<close> or \<^verbatim>\<open>Parent issue not found\<close>. The repository is as
  it was.
\<close>

theorem link_missing_issue_internal_error:
  "fetchIssue (Some reportingRepo) 102 = None \<and>
   linkIssues \<lparr>parentIssueNumber = 100, childIssueNumber = 102, linkType = Some ''tracks''\<rparr>
     (Some reportingRepo) =
     (Inl (GraphqlError ''Could not resolve to an Issue with the number of 102.''),
      Some reportingRepo) \<and>
   callTool (linkIssues \<lparr>parentIssueNumber = 100, childIssueNumber = 102,
                          linkType = Some ''tracks''\<rparr> (Some reportingRepo)) =
     (Inl (McpError InternalError
             ''GitHub API error: Could not resolve to an Issue with the number of 102.''),
      Some reportingRepo) \<and>
   callTool (linkIssues \<lparr>parentIssueNumber = 102, childIssueNumber = 100,
                          linkType = Some ''tracks''\<rparr> (Some reportingRepo)) =
     (Inl (McpError InternalError
             ''GitHub API error: Could not resolve to an Issue with the number of 102.''),
      Some reportingRepo)"
proof -
  have missing: "fetchIssue (Some reportingRepo) 102 = None"
    by (simp add: reportingRepo_def freshRepo_def fetchIssue_def repositoryOf_def)
  have rejected: "linkIssues \<lparr>parentIssueNumber = 100, childIssueNumber = 102,
                               linkType = Some ''tracks''\<rparr> (Some reportingRepo) =
     (Inl (GraphqlError ''Could not resolve to an Issue with the number of 102.''),
      Some reportingRepo)"
    by (simp add: linkIssues_def queryIssue_def reportingRepo_def freshRepo_def
          repositoryOf_def number_eval)
  have rejected': "linkIssues \<lparr>parentIssueNumber = 102, childIssueNumber = 100,
                               linkType = Some ''tracks''\<rparr> (Some reportingRepo) =
     (Inl (GraphqlError ''Could not resolve to an Issue with the number of 102.''),
      Some reportingRepo)"
    by (simp add: linkIssues_def queryIssue_def reportingRepo_def freshRepo_def
          repositoryOf_def number_eval)
  have "callTool (Inl (GraphqlError ''Could not resolve to an Issue with the number of 102.''),
                  Some reportingRepo) =
     (Inl (McpError InternalError
             ''GitHub API error: Could not resolve to an Issue with the number of 102.''),
      Some reportingRepo)"
    by (simp add: callTool_def toolError_def text_eval)
  with missing rejected rejected' show ?thesis by (simp only: simp_thms)
qed

text \<open>
  C8. When both issues resolve and the native sub-issue mutation fails,
  \<open>addSubIssue\<close> answers exactly as \<open>linkIssues\<close> with the kind \<open>tracks\<close> does on the
  same repository if the failure's message contains "Field 'addSubIssue' doesn't
  exist" or "Unknown field", and fails with that very error, the repository
  untouched, otherwise.
\<close>

theorem addSubIssue_fallback:
  assumes "fetchIssue g p = Some parent" and "fetchIssue g c = Some child"
    and "addSubIssueMutation p c g = (Inl e, g')"
  shows "addSubIssue sdk p c g =
           (if str_includes (errorMessage sdk e) ''Field 'addSubIssue' doesn't exist'' \<or>
               str_includes (errorMessage sdk e) ''Unknown field''
            then linkIssues \<lparr>parentIssueNumber = p, childIssueNumber = c,
                             linkType = Some ''tracks''\<rparr> g
            else (Inl e, g))"
proof -
  from assms(3) have "g' = g"
    by (auto simp: addSubIssueMutation_def split: option.splits)
  with assms show ?thesis
    by (simp add: addSubIssue_def queryIssuePair_def)
qed

theorem addSubIssue_fallback_witness:
  "fetchIssue (Some legacyRepo) 100 = Some (plainIssue ''Checkout'' [] []) \<and>
   fetchIssue (Some legacyRepo) 101 = Some (plainIssue ''Cart page'' [] []) \<and>
   addSubIssueMutation 100 101 (Some legacyRepo) =
     (Inl (GraphqlError ''Field 'addSubIssue' doesn't exist on type 'Mutation'.''),
      Some legacyRepo) \<and>
   addSubIssue plainFormat 100 101 (Some legacyRepo) =
     linkIssues \<lparr>parentIssueNumber = 100, childIssueNumber = 101, linkType = Some ''tracks''\<rparr>
       (Some legacyRepo)"
proof -
  have parent: "fetchIssue (Some legacyRepo) 100 = Some (plainIssue ''Checkout'' [] [])"
    by (simp add: legacyRepo_def freshRepo_def fetchIssue_def repositoryOf_def)
  have child: "fetchIssue (Some legacyRepo) 101 = Some (plainIssue ''Cart page'' [] [])"
    by (simp add: legacyRepo_def freshRepo_def fetchIssue_def repositoryOf_def)
  have refused: "addSubIssueMutation 100 101 (Some legacyRepo) =
      (Inl (GraphqlError ''Field 'addSubIssue' doesn't exist on type 'Mutation'.''),
       Some legacyRepo)"
    by (simp add: addSubIssueMutation_def legacyRepo_def)
  have "str_includes
          (errorMessage plainFormat
             (GraphqlError ''Field 'addSubIssue' doesn't exist on type 'Mutation'.''))
          ''Field 'addSubIssue' doesn't exist''"
    by (simp add: text_eval)
  with addSubIssue_fallback [OF parent child refused, of plainFormat] parent child refused
  show ?thesis by (simp only: if_True simp_thms)
qed

section \<open>Claims about issue creation\<close>

text \<open>
  C9. When \<open>createIssue\<close> is given a parent and the link to it fails, the call still
  succeeds: it returns the issue it created, with the message of the link's failure
  in \<open>linkError\<close>, and the issue is in the repository.
\<close>

theorem createIssue_link_failure:
  assumes "createIssueMutation args r = (createdIssue, g1)"
    and "truthyNumber (newParent args) = Some parent"
    and "linkIssues \<lparr>parentIssueNumber = parent, childIssueNumber = createdNumber createdIssue,
                      linkType = Some ''tracks''\<rparr> g1 = (Inl linkFailure, g2)"
  shows "createIssue sdk args (Some r) =
           (Inr (createdIssue\<lparr>linkError := Some (errorMessage sdk linkFailure)\<rparr>), g2) \<and>
         fetchIssue g2 (createdNumber createdIssue) \<noteq> None"
proof -
  have "createIssue sdk args (Some r) =
          (Inr (createdIssue\<lparr>linkError := Some (errorMessage sdk linkFailure)\<rparr>), g2)"
    using assms by (simp add: createIssue_def)
  moreover have "fetchIssue g1 (createdNumber createdIssue) \<noteq> None"
    using assms(1) by (auto simp: createIssueMutation_def Let_def fetchIssue_def)
  moreover have "g2 = g1"
    using assms(3) by (rule linkIssues_failure_unchanged)
  ultimately show ?thesis by simp
qed

theorem createIssue_link_failure_witness:
  "truthyNumber (newParent orphanArgs) = Some 999 \<and>
   linkIssues \<lparr>parentIssueNumber = 999,
               childIssueNumber = createdNumber (fst (createIssueMutation orphanArgs freshRepo)),
               linkType = Some ''tracks''\<rparr> (snd (createIssueMutation orphanArgs freshRepo)) =
     (Inl (McpError InvalidRequest ''Parent issue not found''),
      snd (createIssueMutation orphanArgs freshRepo)) \<and>
   createIssue plainFormat orphanArgs (Some freshRepo) =
     (Inr ((fst (createIssueMutation orphanArgs freshRepo))
             \<lparr>linkError := Some ''Parent issue not found''\<rparr>),
      snd (createIssueMutation orphanArgs freshRepo)) \<and>
   createdNumber (fst (createIssueMutation orphanArgs freshRepo)) = 102 \<and>
   fetchIssue (snd (createIssueMutation orphanArgs freshRepo)) 102 \<noteq> None"
proof -
  have made: "createIssueMutation orphanArgs freshRepo =
      (fst (createIssueMutation orphanArgs freshRepo),
       snd (createIssueMutation orphanArgs freshRepo))"
    by simp
  have wanted: "truthyNumber (newParent orphanArgs) = Some 999"
    by (simp add: truthyNumber_def orphanArgs_def)
  have number: "createdNumber (fst (createIssueMutation orphanArgs freshRepo)) = 102"
    by (simp add: createIssueMutation_def Let_def freshRepo_def repositoryOf_def)
  have "fetchIssue (snd (createIssueMutation orphanArgs freshRepo)) 999 = None"
    by (simp add: createIssueMutation_def Let_def freshRepo_def repositoryOf_def fetchIssue_def)
  then have failed: "linkIssues \<lparr>parentIssueNumber = 999,
               childIssueNumber = createdNumber (fst (createIssueMutation orphanArgs freshRepo)),
               linkType = Some ''tracks''\<rparr> (snd (createIssueMutation orphanArgs freshRepo)) =
     (Inl (McpError InvalidRequest ''Parent issue not found''),
      snd (createIssueMutation orphanArgs freshRepo))"
    by (simp add: linkIssues_def queryIssue_def fetchIssue_def createIssueMutation_def Let_def
          freshRepo_def repositoryOf_def)
  from createIssue_link_failure [OF made wanted failed, of plainFormat] wanted failed number
  show ?thesis by (simp add: plainFormat_def)
qed

section \<open>Claims about the task list\<close>

text \<open>
  C5 fails on the code, in two ways. Where the body of issue 100 has a task-list
  block under each of two headings and does not mention issue 101, the first link
  appends the line for 101 to both blocks, the second link changes nothing, and the
  body has two checklist lines for 101. Where the body names issue 101 in its prose
  and lists another issue, neither link adds a line, and the body has no checklist
  line for 101.
\<close>

theorem link_twice_line_count:
  "map_option issueBody
     (fetchIssue (snd (linkIssues \<lparr>parentIssueNumber = 100, childIssueNumber = 101,
                                    linkType = Some ''tracks''\<rparr>
                   (snd (linkIssues \<lparr>parentIssueNumber = 100, childIssueNumber = 101,
                                      linkType = Some ''tracks''\<rparr> (Some checklistRepo))))) 100) =
     Some (''## Backend'' @ [NL] @ ''- [ ] #5 API'' @ [NL] @ ''- [ ] #101 Cart page'' @ [NL, NL] @
           ''## Frontend'' @ [NL] @ ''- [x] #6 UI'' @ [NL] @ ''- [ ] #101 Cart page'' @ [NL]) \<and>
   checklistLinesFor 101
     (''## Backend'' @ [NL] @ ''- [ ] #5 API'' @ [NL] @ ''- [ ] #101 Cart page'' @ [NL, NL] @
      ''## Frontend'' @ [NL] @ ''- [x] #6 UI'' @ [NL] @ ''- [ ] #101 Cart page'' @ [NL]) =
     [''- [ ] #101 Cart page'', ''- [ ] #101 Cart page''] \<and>
   map_option issueBody
     (fetchIssue (snd (linkIssues \<lparr>parentIssueNumber = 100, childIssueNumber = 101,
                                    linkType = Some ''tracks''\<rparr>
                   (snd (linkIssues \<lparr>parentIssueNumber = 100, childIssueNumber = 101,
                                      linkType = Some ''tracks''\<rparr> (Some mentionRepo))))) 100) =
     Some (''Starts after #101.'' @ [NL] @ ''- [ ] #5 API'' @ [NL]) \<and>
   checklistLinesFor 101 (''Starts after #101.'' @ [NL] @ ''- [ ] #5 API'' @ [NL]) = []"
  by (simp add: checklistRepo_def mentionRepo_def store_eval number_eval task_eval text_eval
        checklistLinesFor_def checklistLineFor_def)

text \<open>
  C6 fails on the code. The body of issue 7 is a task-list block with the one line
  \<^verbatim>\<open>- [ ] #100 Setup\<close>; no line of it is a checklist line for issue 10. Linking
  issue 10 to issue 7 leaves the body as it was, because the text \<^verbatim>\<open>#100\<close> contains
  \<^verbatim>\<open>#10\<close>: no line for issue 10 is appended to the block.
\<close>

theorem link_task_list_prefix_collision:
  "hasTaskList (''- [ ] #100 Setup'' @ [NL]) \<and>
   taskListBlocks (''- [ ] #100 Setup'' @ [NL]) = [''- [ ] #100 Setup'' @ [NL]] \<and>
   checklistLinesFor 10 (''- [ ] #100 Setup'' @ [NL]) = [] \<and>
   fst (linkIssues \<lparr>parentIssueNumber = 7, childIssueNumber = 10,
                    linkType = Some ''tracks''\<rparr> (Some backlogRepo)) =
     Inr (Linked (7, ''Release'') (10, ''Changelog'') ''tracks'') \<and>
   map_option issueBody
     (fetchIssue (snd (linkIssues \<lparr>parentIssueNumber = 7, childIssueNumber = 10,
                                    linkType = Some ''tracks''\<rparr> (Some backlogRepo))) 7) =
     Some (''- [ ] #100 Setup'' @ [NL])"
  by (simp add: backlogRepo_def store_eval number_eval task_eval text_eval
        checklistLinesFor_def checklistLineFor_def)

end
